theory Spec2Isabelle
  imports Main
begin

section \<open>JavaScript values\<close>

text \<open>
  The criteria compiler of \<^verbatim>\<open>MySQLAdapter.js\<close> (the private \<^verbatim>\<open>sql\<close> object and
  \<^verbatim>\<open>validSubAttrCriteria\<close>) walks loosely typed JavaScript values.  They are embedded as
  one datatype.  An object is the list of its own enumerable properties in the order in
  which JavaScript enumerates them; property names are strings.  Numbers are the safe
  integers of JavaScript, those of magnitude at most \<open>2^53 - 1\<close>, which a double holds
  exactly and prints in plain decimal (fractions, NaN, the infinities and larger numbers
  are not represented; a theorem that depends on how a number is printed bounds it).  A \<^verbatim>\<open>Date\<close> is given by the
  results of the methods the program calls on it: \<^verbatim>\<open>getFullYear()\<close>, \<^verbatim>\<open>getMonth()\<close>,
  \<^verbatim>\<open>getDate()\<close>, \<^verbatim>\<open>toLocaleTimeString()\<close> and \<^verbatim>\<open>toString()\<close>; a function by its
  \<^verbatim>\<open>length\<close> (the number of its parameters) and its source text; a regular expression by
  its source.
\<close>

datatype jsval =
    JUndefined
  | JNull
  | JBool bool
  | JNum int
  | JStr string
  | JArr "jsval list"
  | JObj "(string \<times> jsval) list"
  | JDate int int int string string
  | JFun nat string
  | JRegExp string

text \<open>An exception: \<^verbatim>\<open>new Error(msg)\<close> thrown by the program, or a \<^verbatim>\<open>TypeError\<close>
  raised by the language when a method is called on a value that does not have it.\<close>

datatype js_error = Error string | TypeError

type_synonym sqlres = "js_error + string"

text \<open>Truthiness, as tested by \<^verbatim>\<open>if (v)\<close> and \<^verbatim>\<open>a || b\<close>.\<close>

fun truthy :: "jsval \<Rightarrow> bool" where
  "truthy JUndefined = False"
| "truthy JNull = False"
| "truthy (JBool b) = b"
| "truthy (JNum n) = (n \<noteq> 0)"
| "truthy (JStr s) = (s \<noteq> [])"
| "truthy _ = True"

text \<open>\<^verbatim>\<open>a || b\<close>\<close>

definition js_or :: "jsval \<Rightarrow> jsval \<Rightarrow> jsval" where
  "js_or a b = (if truthy a then a else b)"

text \<open>Property read \<^verbatim>\<open>c.name\<close> / \<^verbatim>\<open>c['name']\<close>.  Only plain objects carry the properties
  the program reads; on every other value of the model the read gives \<^verbatim>\<open>undefined\<close>.\<close>

fun get_prop :: "jsval \<Rightarrow> string \<Rightarrow> jsval" where
  "get_prop (JObj kvs) name = (case map_of kvs name of Some v \<Rightarrow> v | None \<Rightarrow> JUndefined)"
| "get_prop _ name = JUndefined"

text \<open>The type tests of underscore.\<close>

fun isObject :: "jsval \<Rightarrow> bool" where
  "isObject (JArr _) = True"
| "isObject (JObj _) = True"
| "isObject (JDate _ _ _ _ _) = True"
| "isObject (JFun _ _) = True"
| "isObject (JRegExp _) = True"
| "isObject _ = False"

fun isArray :: "jsval \<Rightarrow> bool" where
  "isArray (JArr _) = True"
| "isArray _ = False"

fun isNull :: "jsval \<Rightarrow> bool" where
  "isNull JNull = True"
| "isNull _ = False"

fun isRegExp :: "jsval \<Rightarrow> bool" where
  "isRegExp (JRegExp _) = True"
| "isRegExp _ = False"

subsection \<open>Strings and numbers\<close>

definition digit_char :: "nat \<Rightarrow> char" where
  "digit_char d = (''0123456789'' ! d)"

text \<open>The largest safe integer, \<^verbatim>\<open>Number.MAX_SAFE_INTEGER\<close>.\<close>

definition max_safe_integer :: nat where
  "max_safe_integer = 9007199254740991"

text \<open>Decimal rendering of a number, as string concatenation does it.  It is what
  JavaScript prints for the safe integers only: beyond them a double is printed with its
  shortest distinguishing digits (\<open>2^64\<close> as 18446744073709552000), and from \<open>10^21\<close> on
  with an exponent.\<close>

function show_nat :: "nat \<Rightarrow> string" where
  "show_nat n = (if n < 10 then [digit_char n] else show_nat (n div 10) @ [digit_char (n mod 10)])"
  by pat_completeness auto
termination
  by (relation "measure id") auto

declare show_nat.simps [simp del]

definition show_int :: "int \<Rightarrow> string" where
  "show_int i = (if i < 0 then CHR ''-'' # show_nat (nat (- i)) else show_nat (nat i))"

fun join :: "string \<Rightarrow> string list \<Rightarrow> string" where
  "join sep [] = []"
| "join sep [x] = x"
| "join sep (x # y # ys) = x @ sep @ join sep (y # ys)"

text \<open>\<^verbatim>\<open>'' + v\<close>: the string a value turns into when it is concatenated to a string.\<close>

fun js_to_string :: "jsval \<Rightarrow> string" where
  "js_to_string JUndefined = ''undefined''"
| "js_to_string JNull = ''null''"
| "js_to_string (JBool b) = (if b then ''true'' else ''false'')"
| "js_to_string (JNum n) = show_int n"
| "js_to_string (JStr s) = s"
| "js_to_string (JArr xs) =
     join '','' (map (\<lambda>x. if x = JNull \<or> x = JUndefined then [] else js_to_string x) xs)"
| "js_to_string (JObj kvs) = ''[object Object]''"
| "js_to_string (JDate y m d t s) = s"
| "js_to_string (JFun n src) = src"
| "js_to_string (JRegExp src) = ''/'' @ src @ ''/''"

text \<open>\<^verbatim>\<open>String.prototype.toLowerCase\<close> on ASCII text.\<close>

definition lower_char :: "char \<Rightarrow> char" where
  "lower_char ch =
     (case map_of (zip ''ABCDEFGHIJKLMNOPQRSTUVWXYZ'' ''abcdefghijklmnopqrstuvwxyz'') ch of
        Some l \<Rightarrow> l | None \<Rightarrow> ch)"

definition toLowerCase :: "string \<Rightarrow> string" where
  "toLowerCase s = map lower_char s"

text \<open>\<^verbatim>\<open>_.str.rtrim(str, characters)\<close> of underscore.string: removes from the right end
  every character that occurs in \<open>characters\<close>.\<close>

definition rtrim :: "string \<Rightarrow> string \<Rightarrow> string" where
  "rtrim str characters = rev (dropWhile (\<lambda>ch. ch \<in> set characters) (rev str))"

text \<open>\<^verbatim>\<open>valueStr.replace(/%%%/g, '\\%')\<close>: every occurrence of three percent signs, scanning
  from the left, becomes a backslash and one percent sign.\<close>

fun replace_percents :: "string \<Rightarrow> string" where
  "replace_percents (a # b # c # rest) =
     (if a = CHR ''%'' \<and> b = CHR ''%'' \<and> c = CHR ''%''
      then CHR 0x5C # CHR ''%'' # replace_percents rest
      else a # replace_percents (b # c # rest))"
| "replace_percents s = s"

subsection \<open>Iteration\<close>

text \<open>\<^verbatim>\<open>_.each(collection, function (value, key) ...)\<close> of underscore.  An array is
  walked by its native \<^verbatim>\<open>forEach\<close>: the elements with their indices.  Any other value
  whose \<^verbatim>\<open>length\<close> is a number (\<^verbatim>\<open>obj.length === +obj.length\<close>) is walked by index
  from 0 below that length, reading \<^verbatim>\<open>obj[i]\<close>: a string gives its characters, a function
  gives \<^verbatim>\<open>undefined\<close> for each of its parameters, and an object with a numeric \<^verbatim>\<open>length\<close>
  property gives its properties named by the indices, \<^verbatim>\<open>undefined\<close> where there is none;
  the keys are then numbers.  An object without such a property is enumerated: its
  properties with their names, in order.  \<^verbatim>\<open>null\<close>, \<^verbatim>\<open>undefined\<close>, numbers, booleans,
  dates and regular expressions give nothing.  The result lists the \<open>(key, value)\<close> pairs
  the iterator is called with.\<close>

fun each :: "jsval \<Rightarrow> (jsval \<times> jsval) list" where
  "each (JArr xs) = zip (map (\<lambda>i. JNum (int i)) [0 ..< length xs]) xs"
| "each (JObj kvs) =
     (case map_of kvs ''length'' of
        Some (JNum n) \<Rightarrow>
          map (\<lambda>i. (JNum (int i), get_prop (JObj kvs) (show_nat i))) [0 ..< nat n]
      | _ \<Rightarrow> map (\<lambda>(k, v). (JStr k, v)) kvs)"
| "each (JStr s) = zip (map (\<lambda>i. JNum (int i)) [0 ..< length s]) (map (\<lambda>ch. JStr [ch]) s)"
| "each (JFun n src) = map (\<lambda>i. (JNum (int i), JUndefined)) [0 ..< n]"
| "each _ = []"

text \<open>An object that \<^verbatim>\<open>_.each\<close> enumerates by its properties: it has no \<^verbatim>\<open>length\<close>
  property that is a number.\<close>

definition enumerated :: "(string \<times> jsval) list \<Rightarrow> bool" where
  "enumerated kvs = (case map_of kvs ''length'' of Some (JNum n) \<Rightarrow> False | _ \<Rightarrow> True)"

text \<open>Arrays and objects: the values with components.\<close>

fun composite :: "jsval \<Rightarrow> bool" where
  "composite (JArr xs) = True"
| "composite (JObj kvs) = True"
| "composite _ = False"

section \<open>The database driver\<close>

text \<open>\<^verbatim>\<open>mysql.escape\<close> and \<^verbatim>\<open>mysql.escapeId\<close> belong to the driver, not to the adapter.
  They are parameters of the embedding: every function below takes the driver as its first
  argument, and every general theorem holds for all drivers.  A call of the driver is
  taken to return a string, whatever its argument.\<close>

record mysql =
  escape :: "jsval \<Rightarrow> string"
  escapeId :: "jsval \<Rightarrow> string"

section \<open>The criteria compiler\<close>

subsection \<open>Helpers of the adapter\<close>

text \<open>\<^verbatim>\<open>toSqlDate(date)\<close>: year, two-digit month and two-digit day joined by dashes, then a
  space and the locale time string.\<close>

definition toSqlDate :: "jsval \<Rightarrow> string" where
  "toSqlDate date = (case date of
     JDate year month day time s \<Rightarrow>
       join '' '' [join ''-'' [show_int year,
                               (if month < 9 then ''0'' else '''') @ show_int (month + 1),
                               (if day < 10 then ''0'' else '''') @ show_int day],
                   time]
   | _ \<Rightarrow> [])"

text \<open>\<^verbatim>\<open>validSubAttrCriteria(c)\<close>: an object one of whose comparator properties is truthy.
  The properties are tested in the order of the source.\<close>

definition validSubAttrCriteria :: "jsval \<Rightarrow> bool" where
  "validSubAttrCriteria c = (isObject c \<and> (
     truthy (get_prop c ''not'') \<or> truthy (get_prop c ''greaterThan'') \<or> truthy (get_prop c ''lessThan'') \<or>
     truthy (get_prop c ''greaterThanOrEqual'') \<or> truthy (get_prop c ''lessThanOrEqual'') \<or>
     truthy (get_prop c ''<'') \<or> truthy (get_prop c ''<='') \<or> truthy (get_prop c ''!'') \<or>
     truthy (get_prop c ''>'') \<or> truthy (get_prop c ''>='') \<or>
     truthy (get_prop c ''startsWith'') \<or> truthy (get_prop c ''endsWith'') \<or> truthy (get_prop c ''contains'')))"

subsection \<open>\<^verbatim>\<open>sql.build\<close>\<close>

text \<open>The body of the \<^verbatim>\<open>_.each\<close> callback of \<^verbatim>\<open>sql.build\<close>, run over the entries of the
  collection: the fragment of the entry and then the separator are appended to
  \<^verbatim>\<open>$sql\<close>.  An exception thrown by \<open>fn\<close> ends the loop.\<close>

fun build_loop :: "(jsval \<Rightarrow> jsval \<Rightarrow> sqlres) \<Rightarrow> string \<Rightarrow> (jsval \<times> jsval) list \<Rightarrow> string \<Rightarrow> sqlres" where
  "build_loop fn separator [] sql = Inr sql"
| "build_loop fn separator ((key, value) # rest) sql =
     (case fn value key of
        Inl e \<Rightarrow> Inl e
      | Inr s \<Rightarrow> build_loop fn separator rest (sql @ s @ separator))"

text \<open>\<^verbatim>\<open>sql.build(collectionName, collection, fn, separator, keyOverride, parentKey)\<close>.
  An argument that a caller leaves out is \<open>None\<close> for the separator and \<^verbatim>\<open>undefined\<close> for
  the two keys.\<close>

definition build ::
  "string \<Rightarrow> jsval \<Rightarrow> (string \<Rightarrow> jsval \<Rightarrow> jsval \<Rightarrow> jsval \<Rightarrow> sqlres) \<Rightarrow> string option \<Rightarrow> jsval \<Rightarrow> jsval \<Rightarrow> sqlres" where
  "build collectionName collection fn separator keyOverride parentKey =
     (let sep = (case separator of None \<Rightarrow> '', '' | Some s \<Rightarrow> if s = [] then '', '' else s) in
      case build_loop (\<lambda>value key. fn collectionName value (js_or keyOverride key) parentKey)
             sep (each collection) [] of
        Inl e \<Rightarrow> Inl e
      | Inr sql \<Rightarrow> Inr (rtrim sql sep))"

subsection \<open>Values and attributes\<close>

text \<open>\<^verbatim>\<open>sql.prepareValue\<close>, \<^verbatim>\<open>sql.prepareAttribute\<close> and \<^verbatim>\<open>sql.values\<close>.\<close>

definition sql_prepareValue :: "mysql \<Rightarrow> string \<Rightarrow> jsval \<Rightarrow> jsval \<Rightarrow> string" where
  "sql_prepareValue L collectionName value attrName =
     (let value = (case value of JDate y m d t s \<Rightarrow> JStr (toSqlDate value) | _ \<Rightarrow> value);
          value = (case value of JFun n src \<Rightarrow> JStr src | _ \<Rightarrow> value)
      in escape L value)"

definition sql_prepareAttribute :: "mysql \<Rightarrow> string \<Rightarrow> jsval \<Rightarrow> jsval \<Rightarrow> string" where
  "sql_prepareAttribute L collectionName value attrName = escapeId L attrName"

definition sql_values :: "mysql \<Rightarrow> string \<Rightarrow> jsval \<Rightarrow> jsval \<Rightarrow> sqlres" where
  "sql_values L collectionName vals key =
     build collectionName vals (\<lambda>c v k p. Inr (sql_prepareValue L c v k)) (Some '', '') key JUndefined"

text \<open>The anonymous function that \<^verbatim>\<open>sql.predicate\<close> passes to \<^verbatim>\<open>sql.build\<close> for a
  \<^verbatim>\<open>like\<close> key.\<close>

definition like_criterion :: "mysql \<Rightarrow> string \<Rightarrow> jsval \<Rightarrow> jsval \<Rightarrow> jsval \<Rightarrow> sqlres" where
  "like_criterion L collectionName value attrName parentKey =
     (let attrStr = sql_prepareAttribute L collectionName value attrName in
      if isRegExp value
      then Inl (Error ''RegExp LIKE criterias not supported by the MySQLAdapter yet.  Please contribute @ http://github.com/balderdashy/waterline-mysql'')
      else
        let valueStr = sql_prepareValue L collectionName value attrName;
            valueStr = replace_percents valueStr
        in Inr (attrStr @ '' LIKE '' @ valueStr))"

subsection \<open>\<^verbatim>\<open>sql.prepareCriterion\<close>, \<^verbatim>\<open>sql.where\<close> and \<^verbatim>\<open>sql.predicate\<close>\<close>

text \<open>The three functions call each other; \<^verbatim>\<open>sql.where\<close> and \<^verbatim>\<open>sql.predicate\<close> go through
  \<^verbatim>\<open>sql.build\<close>.  A recursive call is on a component of an array or an object, or on the
  same value further down the chain predicate, prepareCriterion, where.  A string or a
  function is walked by index and yields values no larger than itself, but then the key
  is a number: \<^verbatim>\<open>sql.predicate\<close> either raises a \<^verbatim>\<open>TypeError\<close> or hands the value to
  \<^verbatim>\<open>sql.prepareCriterion\<close>, which does not recurse on it.\<close>

lemma build_loop_cong:
  "(\<And>k v. (k, v) \<in> set kvs \<Longrightarrow> f v k = g v k) \<Longrightarrow>
   build_loop f sep kvs acc = build_loop g sep kvs acc"
proof (induction kvs arbitrary: acc)
  case Nil
  then show ?case by simp
next
  case (Cons p ps)
  obtain k v where p: "p = (k, v)" by (cases p)
  have head: "f v k = g v k" using Cons.prems [of k v] p by simp
  have tail: "\<And>a. build_loop f sep ps a = build_loop g sep ps a"
    using Cons.IH Cons.prems by simp
  show ?case using p head tail by (simp split: sum.splits)
qed

lemma build_cong [fundef_cong]:
  "(\<And>k v. (k, v) \<in> set (each coll) \<Longrightarrow> f c v (js_or ko k) pk = g c v (js_or ko k) pk) \<Longrightarrow>
   build c coll f sep ko pk = build c coll g sep ko pk"
proof -
  assume eq: "\<And>k v. (k, v) \<in> set (each coll) \<Longrightarrow> f c v (js_or ko k) pk = g c v (js_or ko k) pk"
  have "build_loop (\<lambda>value key. f c value (js_or ko key) pk) s (each coll) [] =
        build_loop (\<lambda>value key. g c value (js_or ko key) pk) s (each coll) []" for s
    by (rule build_loop_cong) (simp add: eq)
  then show ?thesis by (simp add: build_def)
qed

lemma entry_size: "(k, v) \<in> set kvs \<Longrightarrow> size v < Suc (size_list (size_prod (\<lambda>x. 0) size) kvs)"
  by (induction kvs) auto

lemma get_prop_size: "size (get_prop (JObj kvs) name) < size (JObj kvs)"
proof (cases "map_of kvs name")
  case None
  then show ?thesis by simp
next
  case (Some v)
  then have "(name, v) \<in> set kvs" by (rule map_of_SomeD)
  then show ?thesis using Some by (simp add: entry_size)
qed

lemma each_composite: "composite w \<Longrightarrow> (k, v) \<in> set (each w) \<Longrightarrow> size v < size w"
proof (cases w)
  case (JArr xs)
  assume "(k, v) \<in> set (each w)"
  then have "v \<in> set xs" using JArr by (auto dest: set_zip_rightD)
  then have "size v < Suc (size_list size xs)" by (induction xs) auto
  then show ?thesis using JArr by simp
next
  case (JObj kvs)
  assume kv: "(k, v) \<in> set (each w)"
  show ?thesis
  proof (cases "enumerated kvs")
    case True
    then have "each w = map (\<lambda>(k, v). (JStr k, v)) kvs"
      using JObj by (auto simp: enumerated_def split: option.splits jsval.splits)
    with kv obtain s where "(s, v) \<in> set kvs" by auto
    then show ?thesis using JObj by (simp add: entry_size)
  next
    case False
    then obtain n where "each w = map (\<lambda>i. (JNum (int i), get_prop (JObj kvs) (show_nat i))) [0 ..< nat n]"
      using JObj by (auto simp: enumerated_def split: option.splits jsval.splits)
    with kv obtain i where "v = get_prop (JObj kvs) (show_nat i)" by auto
    then show ?thesis using JObj get_prop_size [of kvs "show_nat i"] by simp
  qed
qed auto

lemma each_simple:
  "\<not> composite w \<Longrightarrow> (k, v) \<in> set (each w) \<Longrightarrow> size v = 0 \<and> size w = 0 \<and> (\<exists>i. k = JNum i)"
  by (cases w) (auto dest!: set_zip_leftD set_zip_rightD simp: in_set_zip)

lemma each_size_le: "(k, v) \<in> set (each w) \<Longrightarrow> size v \<le> size w"
  using each_composite [of w k v] each_simple [of w k v] by (cases "composite w") auto

lemma where_step:
  assumes "(k, v) \<in> set (each w)"
  shows "8 * size v + (case k of JStr s \<Rightarrow> 4 | _ \<Rightarrow> 2) < 8 * size w + (if composite w then 0 else 3)"
proof (cases "composite w")
  case True
  with assms have "size v < size w" by (simp add: each_composite)
  then show ?thesis using True by (simp split: jsval.splits)
next
  case False
  with assms have "size v = 0 \<and> size w = 0 \<and> (\<exists>i. k = JNum i)" by (simp add: each_simple)
  then show ?thesis using False by auto
qed

lemma nodes_step:
  assumes "(k, v) \<in> set (each w)"
  shows "8 * size v + (if composite v then 0 else 3) < 8 * size w + 4"
  using each_size_le [OF assms] by simp

lemma validSubAttrCriteria_composite: "validSubAttrCriteria v \<Longrightarrow> composite v"
  by (cases v) (simp_all add: validSubAttrCriteria_def)

function sql_prepareCriterion :: "mysql \<Rightarrow> string \<Rightarrow> jsval \<Rightarrow> jsval \<Rightarrow> jsval \<Rightarrow> sqlres"
  and sql_where :: "mysql \<Rightarrow> string \<Rightarrow> jsval \<Rightarrow> jsval \<Rightarrow> jsval \<Rightarrow> sqlres"
  and sql_predicate :: "mysql \<Rightarrow> string \<Rightarrow> jsval \<Rightarrow> jsval \<Rightarrow> jsval \<Rightarrow> sqlres"
where
  "sql_prepareCriterion L collectionName value key parentKey =
     (if validSubAttrCriteria value then sql_where L collectionName value JNull key
      else if truthy parentKey then
        (let attrStr = sql_prepareAttribute L collectionName value parentKey;
             valueStr = sql_prepareValue L collectionName value parentKey
         in if key = JStr ''<'' \<or> key = JStr ''lessThan'' then Inr (attrStr @ ''<'' @ valueStr)
            else if key = JStr ''<='' \<or> key = JStr ''lessThanOrEqual'' then Inr (attrStr @ ''<='' @ valueStr)
            else if key = JStr ''>'' \<or> key = JStr ''greaterThan'' then Inr (attrStr @ ''>'' @ valueStr)
            else if key = JStr ''>='' \<or> key = JStr ''greaterThanOrEqual'' then Inr (attrStr @ ''>='' @ valueStr)
            else if key = JStr ''!'' \<or> key = JStr ''not'' then
              (if value = JNull then Inr (attrStr @ ''IS NOT NULL'')
               else Inr (attrStr @ ''<>'' @ valueStr))
            else if key = JStr ''contains'' then Inr (attrStr @ '' LIKE %'' @ valueStr @ ''%'')
            else if key = JStr ''startsWith'' then Inr (attrStr @ '' LIKE '' @ valueStr @ ''%'')
            else if key = JStr ''endsWith'' then Inr (attrStr @ '' LIKE %'' @ valueStr)
            else Inl (Error (''Unknown comparator: '' @ js_to_string key)))
      else
        (let attrStr = sql_prepareAttribute L collectionName value key;
             valueStr = sql_prepareValue L collectionName value key
         in if isNull value then Inr (attrStr @ '' IS NULL'')
            else Inr (attrStr @ ''='' @ valueStr)))"
| "sql_where L collectionName wh key parentKey =
     build collectionName wh (sql_predicate L) (Some '' AND '') JUndefined parentKey"
| "sql_predicate L collectionName criterion key parentKey =
     (if truthy parentKey then sql_prepareCriterion L collectionName criterion key parentKey
      else case key of
        JStr s \<Rightarrow>
          if toLowerCase s = ''or'' then
            (case build collectionName criterion (sql_where L) (Some '' OR '') JUndefined JUndefined of
               Inl e \<Rightarrow> Inl e
             | Inr queryPart \<Rightarrow> Inr ('' ( '' @ queryPart @ '' ) ''))
          else if toLowerCase s = ''and'' then
            (case build collectionName criterion (sql_where L) (Some '' AND '') JUndefined JUndefined of
               Inl e \<Rightarrow> Inl e
             | Inr queryPart \<Rightarrow> Inr ('' ( '' @ queryPart @ '' ) ''))
          else if isArray criterion then
            (case sql_values L collectionName criterion key of
               Inl e \<Rightarrow> Inl e
             | Inr vs \<Rightarrow> Inr (sql_prepareAttribute L collectionName JNull key @ '' IN ('' @ vs @ '')''))
          else if toLowerCase s = ''like'' then
            build collectionName criterion (like_criterion L) (Some '' AND '') JUndefined JUndefined
          else if toLowerCase s = ''not'' then Inl (Error ''NOT not supported yet!'')
          else sql_prepareCriterion L collectionName criterion key JUndefined
      | _ \<Rightarrow> Inl TypeError)"
  by pat_completeness auto
termination
proof (relation "measure (\<lambda>x. case x of
            Inl (L, c, v, k, p) \<Rightarrow> 8 * size v + 1
          | Inr (Inl (L, c, w, k, p)) \<Rightarrow> 8 * size w + (if composite w then 0 else 3)
          | Inr (Inr (L, c, v, k, p)) \<Rightarrow> 8 * size v + (case k of JStr s \<Rightarrow> 4 | _ \<Rightarrow> 2))",
       goal_cases)
  case 1
  then show ?case by simp
next
  case 2
  then show ?case by (simp add: validSubAttrCriteria_composite)
next
  case 3
  then show ?case by (simp add: js_or_def where_step)
next
  case 4
  then show ?case by (simp split: jsval.splits)
next
  case 5
  then show ?case by (simp add: nodes_step)
next
  case 6
  then show ?case by (simp add: nodes_step)
next
  case 7
  then show ?case by (simp split: jsval.splits)
qed

declare sql_prepareCriterion.simps [simp del]
declare sql_where.simps [simp del]
declare sql_predicate.simps [simp del]

text \<open>\<^verbatim>\<open>sql.attributes\<close>, \<^verbatim>\<open>sql.criteria\<close>: the other callers of \<^verbatim>\<open>sql.build\<close>.\<close>

definition sql_attributes :: "mysql \<Rightarrow> string \<Rightarrow> jsval \<Rightarrow> sqlres" where
  "sql_attributes L collectionName attributes =
     build collectionName attributes (\<lambda>c v k p. Inr (sql_prepareAttribute L c v k)) None JUndefined JUndefined"

definition sql_criteria :: "mysql \<Rightarrow> string \<Rightarrow> jsval \<Rightarrow> sqlres" where
  "sql_criteria L collectionName vals =
     build collectionName vals (sql_prepareCriterion L) None JUndefined JUndefined"

subsection \<open>\<^verbatim>\<open>sql.serializeOptions\<close>\<close>

text \<open>The options object of a query; an absent field reads as \<^verbatim>\<open>undefined\<close>.\<close>

record options =
  opt_where :: jsval
  opt_sort :: jsval
  opt_limit :: jsval
  opt_skip :: jsval

text \<open>The \<^verbatim>\<open>_.each\<close> callback over \<^verbatim>\<open>options.sort\<close>.\<close>

fun sort_loop :: "mysql \<Rightarrow> string \<Rightarrow> (jsval \<times> jsval) list \<Rightarrow> string \<Rightarrow> string" where
  "sort_loop L collectionName [] queryPart = queryPart"
| "sort_loop L collectionName ((attrName, direction) # rest) queryPart =
     (let queryPart = queryPart @ sql_prepareAttribute L collectionName JNull attrName @ '' '';
          queryPart = (if direction = JNum 1 then queryPart @ ''ASC '' else queryPart @ ''DESC '')
      in sort_loop L collectionName rest queryPart)"

definition sql_serializeOptions :: "mysql \<Rightarrow> string \<Rightarrow> options \<Rightarrow> sqlres" where
  "sql_serializeOptions L collectionName opts =
     (case (if truthy (opt_where opts)
            then (case sql_where L collectionName (opt_where opts) JUndefined JUndefined of
                    Inl e \<Rightarrow> Inl e
                  | Inr w \<Rightarrow> Inr (''WHERE '' @ w @ '' ''))
            else Inr []) of
        Inl e \<Rightarrow> Inl e
      | Inr queryPart \<Rightarrow>
          let queryPart = (if truthy (opt_sort opts)
                           then sort_loop L collectionName (each (opt_sort opts)) (queryPart @ ''ORDER BY '')
                           else queryPart);
              queryPart = (if truthy (opt_limit opts)
                           then queryPart @ ''LIMIT '' @ js_to_string (opt_limit opts) @ '' ''
                           else queryPart @ ''LIMIT 18446744073709551610 '');
              queryPart = (if truthy (opt_skip opts)
                           then queryPart @ ''OFFSET '' @ js_to_string (opt_skip opts) @ '' ''
                           else queryPart)
          in Inr queryPart)"

subsection \<open>\<^verbatim>\<open>adapter.update\<close>\<close>

text \<open>The query text that \<^verbatim>\<open>adapter.update\<close> hands to the connection: the assignments come
  from \<^verbatim>\<open>sql.criteria\<close>, the rest from \<^verbatim>\<open>sql.serializeOptions\<close>.\<close>

definition update_query :: "mysql \<Rightarrow> string \<Rightarrow> options \<Rightarrow> jsval \<Rightarrow> sqlres" where
  "update_query L collectionName opts vals =
     (let tableName = escapeId L (JStr collectionName) in
      case sql_criteria L collectionName vals of
        Inl e \<Rightarrow> Inl e
      | Inr assignments \<Rightarrow>
          (case sql_serializeOptions L collectionName opts of
             Inl e \<Rightarrow> Inl e
           | Inr suffix \<Rightarrow> Inr (''UPDATE '' @ tableName @ '' SET '' @ assignments @ '' '' @ suffix)))"

section \<open>Vocabulary of the specification\<close>

text \<open>A string that is not empty and whose last character is none of \<open>characters\<close>:
  \<^verbatim>\<open>rtrim\<close> with these characters leaves its end alone.\<close>

definition ends_outside :: "string \<Rightarrow> string \<Rightarrow> bool" where
  "ends_outside characters s = (s \<noteq> [] \<and> last s \<notin> set characters)"

text \<open>The scalars of the data model: null, booleans, numbers, strings and dates.\<close>

definition scalar :: "jsval \<Rightarrow> bool" where
  "scalar v = (case v of
       JNull \<Rightarrow> True | JBool b \<Rightarrow> True | JNum n \<Rightarrow> True | JStr s \<Rightarrow> True
     | JDate y m d t s \<Rightarrow> True | _ \<Rightarrow> False)"

text \<open>A key that \<^verbatim>\<open>sql.predicate\<close> does not read as a combinator or as \<^verbatim>\<open>like\<close>/\<^verbatim>\<open>not\<close>:
  an ASCII name whose lower-case form is none of these words.  (The name is ASCII because
  \<open>toLowerCase\<close> is JavaScript's on ASCII text only: JavaScript also lower-cases the Kelvin
  sign to the letter k.)\<close>

definition ascii_text :: "string \<Rightarrow> bool" where
  "ascii_text s = list_all (\<lambda>ch. (of_char ch :: nat) < 128) s"

definition plain_key :: "string \<Rightarrow> bool" where
  "plain_key k = (ascii_text k \<and> toLowerCase k \<notin> set [''or'', ''and'', ''like'', ''not''])"

text \<open>The recognized comparator keys.\<close>

definition comparator_keys :: "string list" where
  "comparator_keys = [''<'', ''lessThan'', ''<='', ''lessThanOrEqual'', ''>'', ''greaterThan'',
     ''>='', ''greaterThanOrEqual'', ''!'', ''not'', ''contains'', ''startsWith'', ''endsWith'']"

text \<open>The fragment of a plain attribute/value pair: the escaped attribute, then the NULL test
  for null and the equality with the escaped value otherwise.\<close>

definition plain_criterion :: "mysql \<Rightarrow> string \<Rightarrow> string \<times> jsval \<Rightarrow> string" where
  "plain_criterion L c kv =
     (case kv of (k, v) \<Rightarrow>
        escapeId L (JStr k) @
        (if v = JNull then '' IS NULL'' else ''='' @ sql_prepareValue L c v (JStr k)))"

text \<open>The fragment of a comparator with a non-null operand, from the escaped attribute \<open>a\<close>
  and the escaped operand \<open>x\<close>.\<close>

definition comparator_sql :: "string \<Rightarrow> string \<Rightarrow> string \<Rightarrow> string" where
  "comparator_sql k a x =
     (if k = ''<'' \<or> k = ''lessThan'' then a @ ''<'' @ x
      else if k = ''<='' \<or> k = ''lessThanOrEqual'' then a @ ''<='' @ x
      else if k = ''>'' \<or> k = ''greaterThan'' then a @ ''>'' @ x
      else if k = ''>='' \<or> k = ''greaterThanOrEqual'' then a @ ''>='' @ x
      else if k = ''!'' \<or> k = ''not'' then a @ ''<>'' @ x
      else if k = ''contains'' then a @ '' LIKE %'' @ x @ ''%''
      else if k = ''startsWith'' then a @ '' LIKE '' @ x @ ''%''
      else a @ '' LIKE %'' @ x)"

definition comparator_fragment :: "mysql \<Rightarrow> string \<Rightarrow> string \<Rightarrow> string \<times> jsval \<Rightarrow> string" where
  "comparator_fragment L c attr kv =
     (case kv of (k, v) \<Rightarrow>
        comparator_sql k (escapeId L (JStr attr)) (sql_prepareValue L c v (JStr attr)))"

text \<open>The criteria object of the data model: an optional predicate node, an optional sort
  mapping, and optional non-negative \<open>limit\<close> and \<open>skip\<close>; and the options object it is
  passed as.\<close>

record criteria =
  c_where :: "(string \<times> jsval) list option"
  c_sort :: "(string \<times> jsval) list option"
  c_limit :: "nat option"
  c_skip :: "nat option"

definition to_options :: "criteria \<Rightarrow> options" where
  "to_options cr =
     \<lparr>opt_where = (case c_where cr of None \<Rightarrow> JUndefined | Some kvs \<Rightarrow> JObj kvs),
      opt_sort = (case c_sort cr of None \<Rightarrow> JUndefined | Some kvs \<Rightarrow> JObj kvs),
      opt_limit = (case c_limit cr of None \<Rightarrow> JUndefined | Some n \<Rightarrow> JNum (int n)),
      opt_skip = (case c_skip cr of None \<Rightarrow> JUndefined | Some n \<Rightarrow> JNum (int n))\<rparr>"

text \<open>A criteria object whose sort mapping, when there is one, is enumerated by its
  properties, and one whose limit and skip, when present, are safe integers.\<close>

definition sort_enumerated :: "criteria \<Rightarrow> bool" where
  "sort_enumerated cr = (case c_sort cr of None \<Rightarrow> True | Some kvs \<Rightarrow> enumerated kvs)"

definition safe_numbers :: "criteria \<Rightarrow> bool" where
  "safe_numbers cr =
     ((case c_limit cr of None \<Rightarrow> True | Some n \<Rightarrow> n \<le> max_safe_integer) \<and>
      (case c_skip cr of None \<Rightarrow> True | Some n \<Rightarrow> n \<le> max_safe_integer))"

text \<open>The ORDER BY, LIMIT and OFFSET clauses of the options serializer as the specification
  describes them; the OFFSET clause is the one of claim C8 as amended, with no clause
  when \<open>skip\<close> is zero.\<close>

definition order_by_clause :: "mysql \<Rightarrow> (string \<times> jsval) list option \<Rightarrow> string" where
  "order_by_clause L sorting =
     (case sorting of
        None \<Rightarrow> []
      | Some kvs \<Rightarrow>
          ''ORDER BY '' @
          concat (map (\<lambda>(attr, direction).
                    escapeId L (JStr attr) @ '' '' @ (if direction = JNum 1 then ''ASC '' else ''DESC '')) kvs))"

definition limit_clause :: "nat option \<Rightarrow> string" where
  "limit_clause lim =
     (case lim of
        None \<Rightarrow> ''LIMIT 18446744073709551610 ''
      | Some n \<Rightarrow> if 0 < n then ''LIMIT '' @ show_nat n @ '' '' else ''LIMIT 18446744073709551610 '')"

definition offset_clause :: "nat option \<Rightarrow> string" where
  "offset_clause skp =
     (case skp of
        None \<Rightarrow> []
      | Some n \<Rightarrow> if 0 < n then ''OFFSET '' @ show_nat n @ '' '' else [])"

subsection \<open>A driver for the examples\<close>

text \<open>Modelled from the spec: the driver's Value Escaper and Identifier Escaper
  (\<^verbatim>\<open>mysql.escape\<close>, \<^verbatim>\<open>mysql.escapeId\<close>), which are not part of the adapter's source.
  Strings are wrapped in single quotes with quote, backslash and NUL characters
  neutralized, numbers and booleans are written bare, null is the keyword \<^verbatim>\<open>NULL\<close>;
  identifiers are wrapped in double quotes, as in the examples of the specification, with
  an embedded quote doubled.  It is used only to evaluate closed examples.\<close>

definition escape_char :: "char \<Rightarrow> string" where
  "escape_char ch =
     (if ch = CHR 0x27 \<or> ch = CHR 0x22 \<or> ch = CHR 0x5C then [CHR 0x5C, ch]
      else if ch = CHR 0x00 then [CHR 0x5C, CHR ''0'']
      else [ch])"

definition spec_escape :: "jsval \<Rightarrow> string" where
  "spec_escape v =
     (case v of
        JNull \<Rightarrow> ''NULL''
      | JUndefined \<Rightarrow> ''NULL''
      | JBool b \<Rightarrow> (if b then ''true'' else ''false'')
      | JNum n \<Rightarrow> show_int n
      | _ \<Rightarrow> [CHR 0x27] @ concat (map escape_char (js_to_string v)) @ [CHR 0x27])"

definition spec_escapeId :: "jsval \<Rightarrow> string" where
  "spec_escapeId name =
     [CHR 0x22] @ concat (map (\<lambda>ch. if ch = CHR 0x22 then [ch, ch] else [ch]) (js_to_string name)) @ [CHR 0x22]"

definition spec_driver :: mysql where
  "spec_driver = \<lparr>escape = spec_escape, escapeId = spec_escapeId\<rparr>"

section \<open>Auxiliary facts\<close>

subsection \<open>Trimming and joining\<close>

lemma rtrim_append_sep:
  "set sep \<subseteq> set characters \<Longrightarrow> ends_outside characters s \<Longrightarrow> rtrim (s @ sep) characters = s"
proof -
  assume sub: "set sep \<subseteq> set characters" and eo: "ends_outside characters s"
  from eo obtain b l where s: "s = b @ [l]" and l: "l \<notin> set characters"
    unfolding ends_outside_def by (metis append_butlast_last_id)
  have "dropWhile (\<lambda>ch. ch \<in> set characters) (rev sep @ l # rev b) = l # rev b"
    using sub l by (subst dropWhile_append2) auto
  then show ?thesis by (simp add: rtrim_def s)
qed

lemma concat_sep_join:
  "frags \<noteq> [] \<Longrightarrow> concat (map (\<lambda>f. f @ sep) frags) = join sep frags @ sep"
  by (induction sep frags rule: join.induct) auto

lemma join_last_ends:
  "frags \<noteq> [] \<Longrightarrow> ends_outside characters (last frags) \<Longrightarrow> ends_outside characters (join sep frags)"
  by (induction sep frags rule: join.induct) (auto simp: ends_outside_def)

lemma rtrim_join:
  "frags \<noteq> [] \<Longrightarrow> ends_outside sep (last frags) \<Longrightarrow>
   rtrim (concat (map (\<lambda>f. f @ sep) frags)) sep = join sep frags"
  by (simp add: concat_sep_join rtrim_append_sep join_last_ends)

subsection \<open>\<^verbatim>\<open>sql.build\<close>\<close>

lemma build_loop_ok:
  "list_all2 (\<lambda>(k, v) s. f v k = Inr s) kvs frags \<Longrightarrow>
   build_loop f sep kvs acc = Inr (acc @ concat (map (\<lambda>s. s @ sep) frags))"
proof (induction kvs arbitrary: frags acc)
  case Nil
  then show ?case by simp
next
  case (Cons p ps)
  then obtain s ss where fr: "frags = s # ss" by (cases frags) auto
  obtain k v where p: "p = (k, v)" by (cases p)
  from Cons.prems fr p have h: "f v k = Inr s" and t: "list_all2 (\<lambda>(k, v) s. f v k = Inr s) ps ss"
    by auto
  show ?case using Cons.IH [OF t] h fr p by simp
qed

lemma build_loop_err:
  "(k, v) \<in> set kvs \<Longrightarrow> f v k = Inl e \<Longrightarrow> \<exists>e'. build_loop f sep kvs acc = Inl e'"
proof (induction kvs arbitrary: acc)
  case Nil
  then show ?case by simp
next
  case (Cons p ps)
  obtain k' v' where p: "p = (k', v')" by (cases p)
  show ?case
  proof (cases "f v' k'")
    case (Inl a)
    then show ?thesis using p by simp
  next
    case (Inr s)
    then have "(k, v) \<in> set ps" using Cons.prems p by auto
    from Cons.IH [OF this Cons.prems(2)] show ?thesis using Inr p by simp
  qed
qed

lemma build_ok:
  "sep \<noteq> [] \<Longrightarrow>
   list_all2 (\<lambda>(k, v) s. fn c v (js_or ko k) pk = Inr s) (each coll) frags \<Longrightarrow>
   build c coll fn (Some sep) ko pk = Inr (rtrim (concat (map (\<lambda>s. s @ sep) frags)) sep)"
  using build_loop_ok [of "\<lambda>value key. fn c value (js_or ko key) pk" "each coll" frags sep "[]"]
  by (simp add: build_def Let_def)

lemma build_default_ok:
  "list_all2 (\<lambda>(k, v) s. fn c v (js_or ko k) pk = Inr s) (each coll) frags \<Longrightarrow>
   build c coll fn None ko pk = Inr (rtrim (concat (map (\<lambda>s. s @ '', '') frags)) '', '')"
  using build_loop_ok [of "\<lambda>value key. fn c value (js_or ko key) pk" "each coll" frags "'', ''" "[]"]
  by (simp add: build_def Let_def)

lemma build_err:
  "(k, v) \<in> set (each coll) \<Longrightarrow> fn c v (js_or ko k) pk = Inl e \<Longrightarrow>
   \<exists>e'. build c coll fn sep ko pk = Inl e'"
proof -
  assume a: "(k, v) \<in> set (each coll)" and b: "fn c v (js_or ko k) pk = Inl e"
  have "\<exists>e'. build_loop (\<lambda>value key. fn c value (js_or ko key) pk) s (each coll) [] = Inl e'" for s
    by (rule build_loop_err [OF a]) (simp add: b)
  then show ?thesis unfolding build_def Let_def by (metis sum.case(1))
qed

lemma list_all2_map_self:
  "(\<And>x. x \<in> set xs \<Longrightarrow> P x (g x)) \<Longrightarrow> list_all2 P xs (map g xs)"
  by (induction xs) auto

lemma list_all2_zip_values:
  "length ks = length xs \<Longrightarrow>
   list_all2 (\<lambda>(k, v) s. Q v s) (zip ks xs) frags = list_all2 Q xs frags"
proof -
  assume len: "length ks = length xs"
  have "list_all2 (\<lambda>(k, v) s. Q v s) (zip ks xs) frags = list_all2 Q (map snd (zip ks xs)) frags"
    by (simp add: list_all2_map1 case_prod_unfold)
  then show ?thesis using len by simp
qed

subsection \<open>The translators\<close>

lemma scalar_not_sub: "scalar v \<Longrightarrow> \<not> validSubAttrCriteria v"
  by (cases v) (simp_all add: scalar_def validSubAttrCriteria_def)

lemma isNull_iff: "isNull v = (v = JNull)"
  by (cases v) simp_all

lemma prepareCriterion_plain:
  "\<not> validSubAttrCriteria v \<Longrightarrow> \<not> truthy pk \<Longrightarrow>
   sql_prepareCriterion L c v key pk =
     Inr (escapeId L key @ (if v = JNull then '' IS NULL'' else ''='' @ sql_prepareValue L c v key))"
  by (simp add: sql_prepareCriterion.simps sql_prepareAttribute_def isNull_iff)

lemma prepareCriterion_comparator:
  "\<not> validSubAttrCriteria v \<Longrightarrow> truthy pk \<Longrightarrow> k \<in> set comparator_keys \<Longrightarrow> v \<noteq> JNull \<Longrightarrow>
   sql_prepareCriterion L c v (JStr k) pk =
     Inr (comparator_sql k (escapeId L pk) (sql_prepareValue L c v pk))"
  by (auto simp add: sql_prepareCriterion.simps sql_prepareAttribute_def comparator_keys_def
        comparator_sql_def Let_def)

lemma prepareCriterion_unknown:
  "\<not> validSubAttrCriteria v \<Longrightarrow> truthy pk \<Longrightarrow> k \<notin> set comparator_keys \<Longrightarrow>
   sql_prepareCriterion L c v (JStr k) pk = Inl (Error (''Unknown comparator: '' @ k))"
  by (simp add: sql_prepareCriterion.simps comparator_keys_def Let_def)

lemma predicate_parent:
  "truthy pk \<Longrightarrow> sql_predicate L c v key pk = sql_prepareCriterion L c v key pk"
  by (simp add: sql_predicate.simps)

lemma predicate_plain:
  "plain_key k \<Longrightarrow> \<not> isArray v \<Longrightarrow> \<not> truthy pk \<Longrightarrow>
   sql_predicate L c v (JStr k) pk = sql_prepareCriterion L c v (JStr k) JUndefined"
  by (simp add: sql_predicate.simps plain_key_def)

lemma predicate_not:
  "\<not> truthy pk \<Longrightarrow> toLowerCase s = ''not'' \<Longrightarrow> \<not> isArray v \<Longrightarrow>
   sql_predicate L c v (JStr s) pk = Inl (Error ''NOT not supported yet!'')"
  by (simp add: sql_predicate.simps)

lemma each_enumerated:
  "enumerated kvs \<Longrightarrow> each (JObj kvs) = map (\<lambda>(k, v). (JStr k, v)) kvs"
  by (auto simp: enumerated_def split: option.splits jsval.splits)

lemma each_indexed_empty:
  "map_of kvs ''length'' = Some (JNum n) \<Longrightarrow> n \<le> 0 \<Longrightarrow> each (JObj kvs) = []"
  by simp

lemma each_indexed_first:
  "map_of kvs ''length'' = Some (JNum n) \<Longrightarrow> 0 < n \<Longrightarrow>
   \<exists>v rest. each (JObj kvs) = (JNum 0, v) # rest"
proof -
  assume l: "map_of kvs ''length'' = Some (JNum n)" and n: "0 < n"
  from n have "[0 ..< nat n] = 0 # [Suc 0 ..< nat n]" by (simp add: upt_conv_Cons)
  then show ?thesis using l by simp
qed

lemma where_object:
  "enumerated kvs \<Longrightarrow>
   list_all2 (\<lambda>(k, v) f. sql_predicate L c v (JStr k) pk = Inr f) kvs frags \<Longrightarrow>
   sql_where L c (JObj kvs) key pk = Inr (rtrim (concat (map (\<lambda>s. s @ '' AND '') frags)) '' AND '')"
proof -
  assume e: "enumerated kvs"
    and a: "list_all2 (\<lambda>(k, v) f. sql_predicate L c v (JStr k) pk = Inr f) kvs frags"
  have "list_all2 (\<lambda>(k, v) s. sql_predicate L c v (js_or JUndefined k) pk = Inr s) (each (JObj kvs)) frags"
    using a by (simp add: each_enumerated [OF e] list_all2_map1 js_or_def case_prod_unfold del: each.simps)
  from build_ok [of "'' AND ''" "sql_predicate L" c JUndefined pk "JObj kvs" frags] this
  show ?thesis by (simp add: sql_where.simps)
qed

lemma where_object_error:
  "enumerated kvs \<Longrightarrow> (k, v) \<in> set kvs \<Longrightarrow> sql_predicate L c v (JStr k) pk = Inl e \<Longrightarrow>
   \<exists>e'. sql_where L c (JObj kvs) key pk = Inl e'"
proof -
  assume en: "enumerated kvs" and a: "(k, v) \<in> set kvs"
    and b: "sql_predicate L c v (JStr k) pk = Inl e"
  have "(JStr k, v) \<in> set (each (JObj kvs))" using a by (force simp add: each_enumerated [OF en] simp del: each.simps)
  from build_err [of "JStr k" v "JObj kvs" "sql_predicate L" c JUndefined pk e, OF this]
  show ?thesis using b by (simp add: sql_where.simps js_or_def)
qed

lemma where_indexed_empty:
  "map_of kvs ''length'' = Some (JNum n) \<Longrightarrow> n \<le> 0 \<Longrightarrow> sql_where L c (JObj kvs) key pk = Inr []"
  by (simp add: sql_where.simps build_def each_indexed_empty rtrim_def del: each.simps)

lemma where_indexed_type_error:
  assumes "map_of kvs ''length'' = Some (JNum n)" "0 < n"
  shows "sql_where L c (JObj kvs) key JUndefined = Inl TypeError"
proof -
  from each_indexed_first [OF assms] obtain v rest where e: "each (JObj kvs) = (JNum 0, v) # rest"
    by blast
  have "sql_predicate L c v (JNum 0) JUndefined = Inl TypeError"
    by (simp add: sql_predicate.simps)
  then show ?thesis
    by (simp add: sql_where.simps build_def e js_or_def del: each.simps)
qed

lemma where_object_join:
  assumes "enumerated kvs"
    and "list_all2 (\<lambda>(k, v) f. sql_predicate L c v (JStr k) pk = Inr f) kvs frags"
  shows "sql_where L c (JObj kvs) key pk =
           Inr (rtrim (concat (map (\<lambda>f. f @ '' AND '') frags)) '' AND '') \<and>
         (frags \<noteq> [] \<and> ends_outside '' AND '' (last frags) \<longrightarrow>
            sql_where L c (JObj kvs) key pk = Inr (join '' AND '' frags))"
proof -
  have first: "sql_where L c (JObj kvs) key pk =
           Inr (rtrim (concat (map (\<lambda>f. f @ '' AND '') frags)) '' AND '')"
    using assms by (rule where_object)
  have "rtrim (concat (map (\<lambda>f. f @ '' AND '') frags)) '' AND '' = join '' AND '' frags"
    if "frags \<noteq> []" "ends_outside '' AND '' (last frags)"
    using that by (rule rtrim_join)
  with first show ?thesis by simp
qed

lemma predicate_plain_scalar:
  "plain_key k \<Longrightarrow> scalar v \<Longrightarrow> sql_predicate L c v (JStr k) JUndefined = Inr (plain_criterion L c (k, v))"
proof -
  assume k: "plain_key k" and v: "scalar v"
  have "\<not> isArray v" using v by (cases v) (simp_all add: scalar_def)
  then show ?thesis
    using k v by (simp add: predicate_plain prepareCriterion_plain scalar_not_sub plain_criterion_def)
qed

lemma criteria_entry:
  "\<not> validSubAttrCriteria v \<Longrightarrow>
   sql_prepareCriterion L c v (JStr k) JUndefined = Inr (plain_criterion L c (k, v))"
  by (simp add: prepareCriterion_plain plain_criterion_def)

lemma criteria_object:
  "enumerated kvs \<Longrightarrow>
   list_all2 (\<lambda>(k, v) f. sql_prepareCriterion L c v (JStr k) JUndefined = Inr f) kvs frags \<Longrightarrow>
   sql_criteria L c (JObj kvs) = Inr (rtrim (concat (map (\<lambda>s. s @ '', '') frags)) '', '')"
proof -
  assume e: "enumerated kvs"
    and a: "list_all2 (\<lambda>(k, v) f. sql_prepareCriterion L c v (JStr k) JUndefined = Inr f) kvs frags"
  have "list_all2 (\<lambda>(k, v) s. sql_prepareCriterion L c v (js_or JUndefined k) JUndefined = Inr s)
          (each (JObj kvs)) frags"
    using a by (simp add: each_enumerated [OF e] list_all2_map1 js_or_def case_prod_unfold del: each.simps)
  from build_default_ok [of "sql_prepareCriterion L" c JUndefined JUndefined "JObj kvs" frags] this
  show ?thesis by (simp add: sql_criteria_def)
qed

lemma criteria_indexed_empty:
  "map_of kvs ''length'' = Some (JNum n) \<Longrightarrow> n \<le> 0 \<Longrightarrow> sql_criteria L c (JObj kvs) = Inr []"
  by (simp add: sql_criteria_def build_def each_indexed_empty rtrim_def Let_def del: each.simps)

lemma comparators_enumerated:
  assumes "list_all (\<lambda>(k, v). k \<in> set comparator_keys \<and> truthy v \<and> \<not> validSubAttrCriteria v) ops"
  shows "enumerated ops"
proof -
  have "''length'' \<notin> set comparator_keys" by (simp add: comparator_keys_def)
  with assms have "''length'' \<notin> fst ` set ops" by (force simp: list_all_iff)
  then have "map_of ops ''length'' = None" by (simp add: map_of_eq_None_iff)
  then show ?thesis by (simp add: enumerated_def)
qed

lemma comparator_key_sub:
  "isObject c \<Longrightarrow> k \<in> set comparator_keys \<Longrightarrow> truthy (get_prop c k) \<Longrightarrow> validSubAttrCriteria c"
  by (auto simp: validSubAttrCriteria_def comparator_keys_def)

lemma comparators_sub:
  assumes "ops \<noteq> []"
    and "list_all (\<lambda>(k, v). k \<in> set comparator_keys \<and> truthy v \<and> \<not> validSubAttrCriteria v) ops"
  shows "validSubAttrCriteria (JObj ops)"
proof -
  from assms obtain k v rest where ops: "ops = (k, v) # rest" by (cases ops) auto
  with assms have "k \<in> set comparator_keys" "truthy v" by auto
  moreover have "get_prop (JObj ops) k = v" using ops by simp
  ultimately show ?thesis using comparator_key_sub [of "JObj ops" k] by simp
qed

lemma comparator_entry:
  assumes "attr \<noteq> []" "k \<in> set comparator_keys" "truthy v" "\<not> validSubAttrCriteria v"
  shows "sql_predicate L c v (JStr k) (JStr attr) = Inr (comparator_fragment L c attr (k, v))"
proof -
  have "v \<noteq> JNull" using assms(3) by auto
  then show ?thesis using assms
    by (simp add: predicate_parent prepareCriterion_comparator comparator_fragment_def)
qed

lemma build_where_nodes:
  assumes "sep \<noteq> []"
    and "list_all2 (\<lambda>node f. sql_where L c node JUndefined JUndefined = Inr f) nodes frags"
  shows "build c (JArr nodes) (sql_where L) (Some sep) JUndefined JUndefined =
           Inr (rtrim (concat (map (\<lambda>f. f @ sep) frags)) sep)"
proof -
  have "list_all2 (\<lambda>(k, v) s. sql_where L c v (js_or JUndefined k) JUndefined = Inr s)
          (each (JArr nodes)) frags"
    using assms(2) by (simp add: list_all2_zip_values sql_where.simps)
  from build_ok [of sep "sql_where L" c JUndefined JUndefined "JArr nodes" frags, OF assms(1) this]
  show ?thesis .
qed

subsection \<open>The options serializer\<close>

lemma sort_loop_eq:
  "sort_loop L c (map (\<lambda>(k, v). (JStr k, v)) kvs) q =
     q @ concat (map (\<lambda>(attr, direction).
                    escapeId L (JStr attr) @ '' '' @ (if direction = JNum 1 then ''ASC '' else ''DESC '')) kvs)"
  by (induction kvs arbitrary: q) (auto simp: sql_prepareAttribute_def Let_def)

lemma show_int_nat: "show_int (int n) = show_nat n"
  by (simp add: show_int_def)

lemma sort_loop_enumerated:
  "enumerated kvs \<Longrightarrow>
   sort_loop L c (each (JObj kvs)) q =
     q @ concat (map (\<lambda>(attr, direction).
                    escapeId L (JStr attr) @ '' '' @ (if direction = JNum 1 then ''ASC '' else ''DESC '')) kvs)"
  by (simp add: each_enumerated sort_loop_eq del: each.simps)

lemma sort_loop_indexed_empty:
  "map_of kvs ''length'' = Some (JNum n) \<Longrightarrow> n \<le> 0 \<Longrightarrow> sort_loop L c (each (JObj kvs)) q = q"
  by (simp add: each_indexed_empty del: each.simps)



section \<open>The claims\<close>

subsection \<open>C1: comparator objects with falsy operands\<close>

text \<open>
  Claim C1.  A criterion whose value is an object with a recognized comparator key is to
  be taken as a comparator object and translated through the predicate translator with
  the attribute as parent key, also when the operand is a falsy scalar (false, 0, the
  empty string or null).  \<^verbatim>\<open>validSubAttrCriteria\<close> tests the operands for truthiness, so
  the code does not do this: an object whose only comparator has a falsy operand is not
  recognized, and \<^verbatim>\<open>sql.prepareCriterion\<close> renders the attribute, an equals sign and the
  escaped object itself.  The theorem states this behaviour of the code for every driver,
  comparator key and falsy operand.
\<close>

theorem falsy_operand_not_recognized:
  "\<not> truthy operand \<Longrightarrow>
   \<not> validSubAttrCriteria (JObj [(comparator, operand)]) \<and>
   sql_prepareCriterion L c (JObj [(comparator, operand)]) (JStr attr) JUndefined =
     Inr (escapeId L (JStr attr) @ ''='' @ escape L (JObj [(comparator, operand)]))"
proof -
  assume f: "\<not> truthy operand"
  have n: "\<not> validSubAttrCriteria (JObj [(comparator, operand)])"
    using f by (simp add: validSubAttrCriteria_def)
  then show ?thesis
    by (simp add: prepareCriterion_plain sql_prepareValue_def)
qed

theorem falsy_operand_not_recognized_example:
  "\<not> validSubAttrCriteria (JObj [(''>'', JNum 0)]) \<and>
   sql_prepareCriterion spec_driver ''user'' (JObj [(''>'', JNum 0)]) (JStr ''age'') JUndefined =
     Inr (''\"age\"='[object Object]'' @ [CHR 0x27])"
proof -
  have f: "\<not> truthy (JNum 0)" by simp
  have e: "escapeId spec_driver (JStr ''age'') @ ''='' @ escape spec_driver (JObj [(''>'', JNum 0)]) =
             ''\"age\"='[object Object]'' @ [CHR 0x27]"
    by code_simp
  from falsy_operand_not_recognized [OF f, of "''>''" spec_driver "''user''" "''age''", unfolded e]
  show ?thesis .
qed

subsection \<open>C2: NULL tests\<close>

text \<open>
  Claim C2.  \<^verbatim>\<open>{attr: null}\<close> is to be rendered as the escaped attribute followed by
  \<^verbatim>\<open>IS NULL\<close>, and \<^verbatim>\<open>{attr: {'!': null}}\<close> as the escaped attribute followed by
  \<^verbatim>\<open>IS NOT NULL\<close>.  The first holds for every attribute.  The second fails on the code: the
  null operand is falsy, the object is not recognized as a comparator object (the defect
  of C1), and the pair is rendered as an equality with the escaped object.  The branch
  that renders \<^verbatim>\<open>IS NOT NULL\<close> exists and works once it is reached with a parent key, as
  the third part states.
\<close>

theorem null_operand_of_not:
  "sql_prepareCriterion L c JNull (JStr attr) JUndefined = Inr (escapeId L (JStr attr) @ '' IS NULL'') \<and>
   sql_prepareCriterion L c (JObj [(''!'', JNull)]) (JStr attr) JUndefined =
     Inr (escapeId L (JStr attr) @ ''='' @ escape L (JObj [(''!'', JNull)])) \<and>
   (truthy pk \<longrightarrow> sql_prepareCriterion L c JNull (JStr ''!'') pk = Inr (escapeId L pk @ ''IS NOT NULL''))"
proof -
  have a: "\<not> validSubAttrCriteria JNull" by (simp add: validSubAttrCriteria_def)
  have b: "\<not> validSubAttrCriteria (JObj [(''!'', JNull)])" by (simp add: validSubAttrCriteria_def)
  have "sql_prepareCriterion L c JNull (JStr ''!'') pk = Inr (escapeId L pk @ ''IS NOT NULL'')" if "truthy pk"
    using that a by (simp add: sql_prepareCriterion.simps sql_prepareAttribute_def Let_def)
  then show ?thesis using a b by (simp add: prepareCriterion_plain sql_prepareValue_def)
qed

theorem null_operand_of_not_example:
  "sql_prepareCriterion spec_driver ''user'' JNull (JStr ''name'') JUndefined = Inr ''\"name\" IS NULL'' \<and>
   sql_prepareCriterion spec_driver ''user'' (JObj [(''!'', JNull)]) (JStr ''name'') JUndefined =
     Inr (''\"name\"='[object Object]'' @ [CHR 0x27]) \<and>
   sql_prepareCriterion spec_driver ''user'' JNull (JStr ''!'') (JStr ''name'') = Inr ''\"name\"IS NOT NULL''"
proof -
  have t: "truthy (JStr ''name'')" by simp
  have e1: "escapeId spec_driver (JStr ''name'') @ '' IS NULL'' = ''\"name\" IS NULL''" by code_simp
  have e2: "escapeId spec_driver (JStr ''name'') @ ''='' @ escape spec_driver (JObj [(''!'', JNull)]) =
              ''\"name\"='[object Object]'' @ [CHR 0x27]" by code_simp
  have e3: "escapeId spec_driver (JStr ''name'') @ ''IS NOT NULL'' = ''\"name\"IS NOT NULL''" by code_simp
  from null_operand_of_not [of spec_driver "''user''" "''name''" "JStr ''name''", unfolded e1 e2 e3] t
  show ?thesis by blast
qed

subsection \<open>C3: the LIKE comparators\<close>

text \<open>
  Claim C3.  For a scalar operand under a parent key, \<^verbatim>\<open>contains\<close>, \<^verbatim>\<open>startsWith\<close> and
  \<^verbatim>\<open>endsWith\<close> are to render the escaped attribute, \<^verbatim>\<open>LIKE\<close> and one quoted literal
  with the wildcards inside it.  The code concatenates the percent signs around the
  string that the driver's escape function returns, which already carries its quotes: the
  wildcards stand outside the literal.  The theorem gives the fragment the code builds, for
  every driver.
\<close>

theorem like_wildcards_outside_literal:
  "truthy pk \<Longrightarrow> scalar v \<Longrightarrow>
   sql_prepareCriterion L c v (JStr ''contains'') pk =
     Inr (escapeId L pk @ '' LIKE %'' @ sql_prepareValue L c v pk @ ''%'') \<and>
   sql_prepareCriterion L c v (JStr ''startsWith'') pk =
     Inr (escapeId L pk @ '' LIKE '' @ sql_prepareValue L c v pk @ ''%'') \<and>
   sql_prepareCriterion L c v (JStr ''endsWith'') pk =
     Inr (escapeId L pk @ '' LIKE %'' @ sql_prepareValue L c v pk)"
  by (simp add: sql_prepareCriterion.simps scalar_not_sub sql_prepareAttribute_def Let_def)

theorem like_wildcards_outside_literal_example:
  "sql_prepareCriterion spec_driver ''user'' (JStr ''abc'') (JStr ''contains'') (JStr ''name'') =
     Inr ''\"name\" LIKE %'abc'%'' \<and>
   sql_prepareCriterion spec_driver ''user'' (JStr ''abc'') (JStr ''startsWith'') (JStr ''name'') =
     Inr ''\"name\" LIKE 'abc'%'' \<and>
   sql_prepareCriterion spec_driver ''user'' (JStr ''abc'') (JStr ''endsWith'') (JStr ''name'') =
     Inr (''\"name\" LIKE %'abc'' @ [CHR 0x27])"
proof -
  have t: "truthy (JStr ''name'')" by simp
  have s: "scalar (JStr ''abc'')" by (simp add: scalar_def)
  have e1: "escapeId spec_driver (JStr ''name'') @ '' LIKE %'' @
              sql_prepareValue spec_driver ''user'' (JStr ''abc'') (JStr ''name'') @ ''%'' =
            ''\"name\" LIKE %'abc'%''" by code_simp
  have e2: "escapeId spec_driver (JStr ''name'') @ '' LIKE '' @
              sql_prepareValue spec_driver ''user'' (JStr ''abc'') (JStr ''name'') @ ''%'' =
            ''\"name\" LIKE 'abc'%''" by code_simp
  have e3: "escapeId spec_driver (JStr ''name'') @ '' LIKE %'' @
              sql_prepareValue spec_driver ''user'' (JStr ''abc'') (JStr ''name'') =
            ''\"name\" LIKE %'abc'' @ [CHR 0x27]" by code_simp
  from like_wildcards_outside_literal [OF t s, of spec_driver "''user''", unfolded e1 e2 e3]
  show ?thesis .
qed

subsection \<open>C4: unknown comparators and the \<^verbatim>\<open>not\<close> key\<close>

text \<open>
  Claim C4 as stated fails in two places, both a consequence of the order of the tests.
  Under a parent key, an unknown key whose value is itself a comparator object is
  translated as sub-attribute criteria of that key, since \<^verbatim>\<open>sql.prepareCriterion\<close> tests
  the value first; and a \<^verbatim>\<open>not\<close> key with an array value is translated as an IN list,
  since \<^verbatim>\<open>sql.predicate\<close> tests for arrays before it tests for \<^verbatim>\<open>not\<close>.
\<close>

theorem unknown_and_not_keys_counterexample:
  "sql_prepareCriterion spec_driver ''user'' (JObj [(''<'', JNum 3)]) (JStr ''foo'') (JStr ''age'') =
     Inr ''\"foo\"<3'' \<and>
   sql_where spec_driver ''user'' (JObj [(''>'', JNum 18), (''foo'', JObj [(''<'', JNum 3)])]) JNull (JStr ''age'') =
     Inr ''\"age\">18 AND \"foo\"<3'' \<and>
   sql_predicate spec_driver ''user'' (JArr [JNum 1, JNum 2]) (JStr ''not'') JUndefined =
     Inr ''\"not\" IN (1, 2)''"
  by code_simp

text \<open>
  Claim C4, amended.  Under an active parent key, a key that is not a recognized
  comparator and whose value is not a comparator object makes \<^verbatim>\<open>sql.prepareCriterion\<close>
  fail with the error \<^verbatim>\<open>Unknown comparator: key\<close>; with no parent key, a key equal to
  \<^verbatim>\<open>not\<close> in any letter case whose value is not an array makes \<^verbatim>\<open>sql.predicate\<close> fail with
  \<^verbatim>\<open>NOT not supported yet!\<close>.  In both cases \<^verbatim>\<open>sql.where\<close> fails as well on every object
  that holds such an entry and that \<^verbatim>\<open>_.each\<close> enumerates by its properties (it has no
  numeric \<^verbatim>\<open>length\<close>): there the key is not dropped.
\<close>

theorem unknown_comparator_and_not_rejected:
  "(truthy pk \<and> k \<notin> set comparator_keys \<and> \<not> validSubAttrCriteria v \<longrightarrow>
      sql_prepareCriterion L c v (JStr k) pk = Inl (Error (''Unknown comparator: '' @ k)) \<and>
      ((k, v) \<in> set kvs \<and> enumerated kvs \<longrightarrow> (\<exists>e. sql_where L c (JObj kvs) key pk = Inl e))) \<and>
   (\<not> truthy pk \<and> toLowerCase s = ''not'' \<and> \<not> isArray w \<longrightarrow>
      sql_predicate L c w (JStr s) pk = Inl (Error ''NOT not supported yet!'') \<and>
      ((s, w) \<in> set kvs \<and> enumerated kvs \<longrightarrow> (\<exists>e. sql_where L c (JObj kvs) key pk = Inl e)))"
proof -
  have unknown: "sql_prepareCriterion L c v (JStr k) pk = Inl (Error (''Unknown comparator: '' @ k)) \<and>
      ((k, v) \<in> set kvs \<and> enumerated kvs \<longrightarrow> (\<exists>e. sql_where L c (JObj kvs) key pk = Inl e))"
    if a: "truthy pk \<and> k \<notin> set comparator_keys \<and> \<not> validSubAttrCriteria v"
  proof -
    have u: "sql_prepareCriterion L c v (JStr k) pk = Inl (Error (''Unknown comparator: '' @ k))"
      using a by (simp add: prepareCriterion_unknown)
    have p: "sql_predicate L c v (JStr k) pk = Inl (Error (''Unknown comparator: '' @ k))"
      using a u by (simp add: predicate_parent)
    have "\<exists>e. sql_where L c (JObj kvs) key pk = Inl e" if "(k, v) \<in> set kvs" "enumerated kvs"
      using that(2) that(1) p by (rule where_object_error)
    with u show ?thesis by blast
  qed
  have negation: "sql_predicate L c w (JStr s) pk = Inl (Error ''NOT not supported yet!'') \<and>
      ((s, w) \<in> set kvs \<and> enumerated kvs \<longrightarrow> (\<exists>e. sql_where L c (JObj kvs) key pk = Inl e))"
    if a: "\<not> truthy pk \<and> toLowerCase s = ''not'' \<and> \<not> isArray w"
  proof -
    have n: "sql_predicate L c w (JStr s) pk = Inl (Error ''NOT not supported yet!'')"
      using a by (simp add: predicate_not)
    have "\<exists>e. sql_where L c (JObj kvs) key pk = Inl e" if "(s, w) \<in> set kvs" "enumerated kvs"
      using that(2) that(1) n by (rule where_object_error)
    with n show ?thesis by blast
  qed
  from unknown negation show ?thesis by blast
qed

theorem unknown_comparator_and_not_rejected_example:
  "sql_prepareCriterion spec_driver ''user'' (JNum 65) (JStr ''foo'') (JStr ''age'') =
     Inl (Error ''Unknown comparator: foo'') \<and>
   (\<exists>e. sql_where spec_driver ''user'' (JObj [(''>'', JNum 18), (''foo'', JNum 65)]) JNull (JStr ''age'') = Inl e) \<and>
   sql_predicate spec_driver ''user'' (JNum 1) (JStr ''Not'') JUndefined = Inl (Error ''NOT not supported yet!'') \<and>
   (\<exists>e. sql_where spec_driver ''user'' (JObj [(''a'', JNum 1), (''Not'', JNum 1)]) JUndefined JUndefined = Inl e)"
proof -
  have h1: "truthy (JStr ''age'') \<and> ''foo'' \<notin> set comparator_keys \<and> \<not> validSubAttrCriteria (JNum 65)"
    by (simp add: comparator_keys_def validSubAttrCriteria_def)
  have m1: "(''foo'', JNum 65) \<in> set [(''>'', JNum 18), (''foo'', JNum 65)] \<and>
            enumerated [(''>'', JNum 18), (''foo'', JNum 65)]" by (simp add: enumerated_def)
  have h2: "\<not> truthy JUndefined \<and> toLowerCase ''Not'' = ''not'' \<and> \<not> isArray (JNum 1)"
    by (simp add: toLowerCase_def lower_char_def)
  have m2: "(''Not'', JNum 1) \<in> set [(''a'', JNum 1), (''Not'', JNum 1)] \<and>
            enumerated [(''a'', JNum 1), (''Not'', JNum 1)]" by (simp add: enumerated_def)
  note T = unknown_comparator_and_not_rejected
  from T [where pk = "JStr ''age''" and k = "''foo''" and v = "JNum 65" and L = spec_driver
      and c = "''user''" and kvs = "[(''>'', JNum 18), (''foo'', JNum 65)]" and key = JNull,
      THEN conjunct1, rule_format, OF h1]
  have r1: "sql_prepareCriterion spec_driver ''user'' (JNum 65) (JStr ''foo'') (JStr ''age'') =
     Inl (Error ''Unknown comparator: foo'') \<and>
   (\<exists>e. sql_where spec_driver ''user'' (JObj [(''>'', JNum 18), (''foo'', JNum 65)]) JNull (JStr ''age'') = Inl e)"
    using m1 by simp
  from T [where pk = JUndefined and L = spec_driver and c = "''user''"
      and kvs = "[(''a'', JNum 1), (''Not'', JNum 1)]" and key = JUndefined and s = "''Not''" and w = "JNum 1",
      THEN conjunct2, rule_format, OF h2]
  have r2: "sql_predicate spec_driver ''user'' (JNum 1) (JStr ''Not'') JUndefined = Inl (Error ''NOT not supported yet!'') \<and>
   (\<exists>e. sql_where spec_driver ''user'' (JObj [(''a'', JNum 1), (''Not'', JNum 1)]) JUndefined JUndefined = Inl e)"
    using m2 by simp
  from r1 r2 show ?thesis by simp
qed

subsection \<open>C5: \<^verbatim>\<open>or\<close> and \<^verbatim>\<open>and\<close>\<close>

text \<open>
  Claim C5.  With no parent key, for a key that is \<^verbatim>\<open>or\<close> in any letter case and an
  array of nested nodes, each of which \<^verbatim>\<open>sql.where\<close> translates to a fragment,
  \<^verbatim>\<open>sql.predicate\<close> returns the fragments, each followed by \<^verbatim>\<open>' OR '\<close>, trimmed at the
  right end, between \<^verbatim>\<open>' ( '\<close> and \<^verbatim>\<open>' ) '\<close>; that is the fragments joined by \<^verbatim>\<open>' OR '\<close>
  in parentheses when the last fragment does not end in a character of the separator.
  The key \<^verbatim>\<open>and\<close> behaves in the same way with \<^verbatim>\<open>' AND '\<close>.
\<close>

theorem predicate_or_and:
  assumes key: "(toLowerCase s = ''or'' \<and> sep = '' OR '') \<or> (toLowerCase s = ''and'' \<and> sep = '' AND '')"
    and nodes: "list_all2 (\<lambda>node f. sql_where L c node JUndefined JUndefined = Inr f) nodes frags"
  shows "sql_predicate L c (JArr nodes) (JStr s) JUndefined =
           Inr ('' ( '' @ rtrim (concat (map (\<lambda>f. f @ sep) frags)) sep @ '' ) '') \<and>
         (frags \<noteq> [] \<and> ends_outside sep (last frags) \<longrightarrow>
            sql_predicate L c (JArr nodes) (JStr s) JUndefined = Inr ('' ( '' @ join sep frags @ '' ) ''))"
proof -
  have sep: "sep \<noteq> []" using key by auto
  have b: "build c (JArr nodes) (sql_where L) (Some sep) JUndefined JUndefined =
             Inr (rtrim (concat (map (\<lambda>f. f @ sep) frags)) sep)"
    using sep nodes by (rule build_where_nodes)
  have first: "sql_predicate L c (JArr nodes) (JStr s) JUndefined =
           Inr ('' ( '' @ rtrim (concat (map (\<lambda>f. f @ sep) frags)) sep @ '' ) '')"
    using key
  proof
    assume "toLowerCase s = ''or'' \<and> sep = '' OR ''"
    then show ?thesis using b by (simp add: sql_predicate.simps)
  next
    assume "toLowerCase s = ''and'' \<and> sep = '' AND ''"
    then show ?thesis using b by (simp add: sql_predicate.simps)
  qed
  have "rtrim (concat (map (\<lambda>f. f @ sep) frags)) sep = join sep frags"
    if "frags \<noteq> []" "ends_outside sep (last frags)"
    using that by (rule rtrim_join)
  with first show ?thesis by simp
qed

theorem predicate_or_and_example:
  "sql_predicate spec_driver ''user'' (JArr [JObj [(''a'', JNum 1)], JObj [(''a'', JNum 2)]]) (JStr ''or'') JUndefined =
     Inr '' ( \"a\"=1 OR \"a\"=2 ) '' \<and>
   sql_predicate spec_driver ''user'' (JArr [JObj [(''a'', JNum 1)], JObj [(''b'', JNull)]]) (JStr ''AND'') JUndefined =
     Inr '' ( \"a\"=1 AND \"b\" IS NULL ) ''"
proof -
  have k1: "(toLowerCase ''or'' = ''or'' \<and> '' OR '' = '' OR '') \<or> (toLowerCase ''or'' = ''and'' \<and> '' OR '' = '' AND '')"
    by (simp add: toLowerCase_def lower_char_def)
  have k2: "(toLowerCase ''AND'' = ''or'' \<and> '' AND '' = '' OR '') \<or> (toLowerCase ''AND'' = ''and'' \<and> '' AND '' = '' AND '')"
    by (simp add: toLowerCase_def lower_char_def)
  have n1: "list_all2 (\<lambda>node f. sql_where spec_driver ''user'' node JUndefined JUndefined = Inr f)
              [JObj [(''a'', JNum 1)], JObj [(''a'', JNum 2)]] [''\"a\"=1'', ''\"a\"=2'']"
    by code_simp
  have n2: "list_all2 (\<lambda>node f. sql_where spec_driver ''user'' node JUndefined JUndefined = Inr f)
              [JObj [(''a'', JNum 1)], JObj [(''b'', JNull)]] [''\"a\"=1'', ''\"b\" IS NULL'']"
    by code_simp
  have t1: "[''\"a\"=1'', ''\"a\"=2''] \<noteq> [] \<and> ends_outside '' OR '' (last [''\"a\"=1'', ''\"a\"=2''])"
    by (simp add: ends_outside_def)
  have t2: "[''\"a\"=1'', ''\"b\" IS NULL''] \<noteq> [] \<and> ends_outside '' AND '' (last [''\"a\"=1'', ''\"b\" IS NULL''])"
    by (simp add: ends_outside_def)
  from predicate_or_and [OF k1 n1, THEN conjunct2, rule_format, OF t1]
  have r1: "sql_predicate spec_driver ''user'' (JArr [JObj [(''a'', JNum 1)], JObj [(''a'', JNum 2)]]) (JStr ''or'') JUndefined =
     Inr '' ( \"a\"=1 OR \"a\"=2 ) ''" by simp
  from predicate_or_and [OF k2 n2, THEN conjunct2, rule_format, OF t2]
  have r2: "sql_predicate spec_driver ''user'' (JArr [JObj [(''a'', JNum 1)], JObj [(''b'', JNull)]]) (JStr ''AND'') JUndefined =
     Inr '' ( \"a\"=1 AND \"b\" IS NULL ) ''" by simp
  from r1 r2 show ?thesis by (rule conjI)
qed

subsection \<open>C6: implicit conjunction\<close>

text \<open>
  Claim C6.  For a predicate node whose keys are plain attribute names (ASCII names, none
  of them \<^verbatim>\<open>or\<close>, \<^verbatim>\<open>and\<close>, \<^verbatim>\<open>like\<close> or \<^verbatim>\<open>not\<close> in any letter case) and with no parent key,
  \<^verbatim>\<open>sql.where\<close> is to render every pair and join the fragments with \<^verbatim>\<open>' AND '\<close> in the
  order of the node, trimming the trailing separator.  The code does so for every node
  that \<^verbatim>\<open>_.each\<close> enumerates by its properties: with scalar values the translation cannot
  fail and the fragments are the equalities and NULL tests of the pairs, and for other
  values the same holds of whatever fragments \<^verbatim>\<open>sql.predicate\<close> returns for the pairs
  (\<^verbatim>\<open>rtrim\<close> removes every trailing character that occurs in the separator, so the result
  is exactly the join when the last fragment does not end in a space, A, N or D).  The
  code fails for a node with an attribute named \<^verbatim>\<open>length\<close> whose value is a number:
  \<^verbatim>\<open>_.each\<close> walks such a node by index, so for a positive number \<^verbatim>\<open>sql.predicate\<close> is
  called with the key 0 and raises a \<^verbatim>\<open>TypeError\<close>, and for zero or a negative number no
  pair is visited and the result is the empty string.
\<close>

theorem where_joins_plain_attributes:
  "(list_all (\<lambda>(k, v). plain_key k) kvs \<and> enumerated kvs \<longrightarrow>
      (list_all (\<lambda>(k, v). scalar v) kvs \<longrightarrow>
         sql_where L c (JObj kvs) key JUndefined =
           Inr (rtrim (concat (map (\<lambda>f. f @ '' AND '') (map (plain_criterion L c) kvs))) '' AND '') \<and>
         (kvs \<noteq> [] \<and> ends_outside '' AND '' (plain_criterion L c (last kvs)) \<longrightarrow>
            sql_where L c (JObj kvs) key JUndefined =
              Inr (join '' AND '' (map (plain_criterion L c) kvs)))) \<and>
      (list_all2 (\<lambda>(k, v) f. sql_predicate L c v (JStr k) JUndefined = Inr f) kvs frags \<longrightarrow>
         sql_where L c (JObj kvs) key JUndefined =
           Inr (rtrim (concat (map (\<lambda>f. f @ '' AND '') frags)) '' AND '') \<and>
         (frags \<noteq> [] \<and> ends_outside '' AND '' (last frags) \<longrightarrow>
            sql_where L c (JObj kvs) key JUndefined = Inr (join '' AND '' frags)))) \<and>
   (map_of kvs ''length'' = Some (JNum n) \<and> 0 < n \<longrightarrow>
      sql_where L c (JObj kvs) key JUndefined = Inl TypeError) \<and>
   (map_of kvs ''length'' = Some (JNum n) \<and> n \<le> 0 \<longrightarrow>
      sql_where L c (JObj kvs) key JUndefined = Inr [])"
proof -
  have scalars: "sql_where L c (JObj kvs) key JUndefined =
              Inr (rtrim (concat (map (\<lambda>f. f @ '' AND '') (map (plain_criterion L c) kvs))) '' AND '') \<and>
            (kvs \<noteq> [] \<and> ends_outside '' AND '' (plain_criterion L c (last kvs)) \<longrightarrow>
               sql_where L c (JObj kvs) key JUndefined =
                 Inr (join '' AND '' (map (plain_criterion L c) kvs)))"
    if keys: "list_all (\<lambda>(k, v). plain_key k) kvs" and enum: "enumerated kvs"
      and s: "list_all (\<lambda>(k, v). scalar v) kvs"
  proof -
    have "list_all2 (\<lambda>(k, v) f. sql_predicate L c v (JStr k) JUndefined = Inr f) kvs
            (map (plain_criterion L c) kvs)"
    proof (rule list_all2_map_self)
      fix x assume x: "x \<in> set kvs"
      obtain k v where kv: "x = (k, v)" by (cases x)
      from keys s x kv have "plain_key k" "scalar v" by (auto simp: list_all_iff)
      then show "(case x of (k, v) \<Rightarrow> \<lambda>f. sql_predicate L c v (JStr k) JUndefined = Inr f)
                   (plain_criterion L c x)"
        using kv by (simp add: predicate_plain_scalar)
    qed
    note J = where_object_join [OF enum this, of key]
    have "sql_where L c (JObj kvs) key JUndefined =
            Inr (join '' AND '' (map (plain_criterion L c) kvs))"
      if "kvs \<noteq> []" "ends_outside '' AND '' (plain_criterion L c (last kvs))"
      by (rule J [THEN conjunct2, rule_format]) (simp add: that last_map)
    with J [THEN conjunct1] show ?thesis by blast
  qed
  have general: "sql_where L c (JObj kvs) key JUndefined =
              Inr (rtrim (concat (map (\<lambda>f. f @ '' AND '') frags)) '' AND '') \<and>
            (frags \<noteq> [] \<and> ends_outside '' AND '' (last frags) \<longrightarrow>
               sql_where L c (JObj kvs) key JUndefined = Inr (join '' AND '' frags))"
    if "enumerated kvs"
      and "list_all2 (\<lambda>(k, v) f. sql_predicate L c v (JStr k) JUndefined = Inr f) kvs frags"
    using that by (rule where_object_join)
  have indexed: "sql_where L c (JObj kvs) key JUndefined = Inl TypeError"
    if "map_of kvs ''length'' = Some (JNum n)" "0 < n"
    using that by (rule where_indexed_type_error)
  have dropped: "sql_where L c (JObj kvs) key JUndefined = Inr []"
    if "map_of kvs ''length'' = Some (JNum n)" "n \<le> 0"
    using that by (rule where_indexed_empty)
  from scalars general indexed dropped show ?thesis by blast
qed

theorem where_joins_plain_attributes_example:
  "sql_where spec_driver ''user'' (JObj [(''a'', JNum 1), (''b'', JNum 2)]) JUndefined JUndefined =
     Inr ''\"a\"=1 AND \"b\"=2'' \<and>
   sql_where spec_driver ''user'' (JObj [(''id'', JArr [JNum 1, JNum 2, JNum 3]), (''name'', JNull)])
       JUndefined JUndefined =
     Inr ''\"id\" IN (1, 2, 3) AND \"name\" IS NULL'' \<and>
   sql_where spec_driver ''user'' (JObj [(''length'', JNum 5), (''a'', JNum 1)]) JUndefined JUndefined =
     Inl TypeError \<and>
   sql_where spec_driver ''user'' (JObj [(''length'', JNum 0), (''a'', JNum 1)]) JUndefined JUndefined =
     Inr []"
proof -
  note T = where_joins_plain_attributes
  have k1: "list_all (\<lambda>(k, v). plain_key k) [(''a'', JNum 1), (''b'', JNum 2)] \<and>
            enumerated [(''a'', JNum 1), (''b'', JNum 2)]"
    by (simp add: plain_key_def ascii_text_def toLowerCase_def lower_char_def enumerated_def)
  have s1: "list_all (\<lambda>(k, v). scalar v) [(''a'', JNum 1), (''b'', JNum 2)]"
    by (simp add: scalar_def)
  have e1: "join '' AND '' (map (plain_criterion spec_driver ''user'') [(''a'', JNum 1), (''b'', JNum 2)]) =
             ''\"a\"=1 AND \"b\"=2''"
    by code_simp
  have t1: "[(''a'', JNum 1), (''b'', JNum (2::int))] \<noteq> [] \<and>
            ends_outside '' AND '' (plain_criterion spec_driver ''user'' (last [(''a'', JNum 1), (''b'', JNum 2)]))"
    by code_simp
  from T [where L = spec_driver and c = "''user''" and key = JUndefined and kvs = "[(''a'', JNum 1), (''b'', JNum 2)]",
      THEN conjunct1, rule_format, OF k1, THEN conjunct1, rule_format, OF s1, THEN conjunct2, rule_format, OF t1]
  have r1: "sql_where spec_driver ''user'' (JObj [(''a'', JNum 1), (''b'', JNum 2)]) JUndefined JUndefined =
     Inr ''\"a\"=1 AND \"b\"=2''"
    by (simp only: e1)
  have k2: "list_all (\<lambda>(k, v). plain_key k) [(''id'', JArr [JNum 1, JNum 2, JNum 3]), (''name'', JNull)] \<and>
            enumerated [(''id'', JArr [JNum 1, JNum 2, JNum 3]), (''name'', JNull)]"
    by (simp add: plain_key_def ascii_text_def toLowerCase_def lower_char_def enumerated_def)
  have f2: "list_all2 (\<lambda>(k, v) f. sql_predicate spec_driver ''user'' v (JStr k) JUndefined = Inr f)
              [(''id'', JArr [JNum 1, JNum 2, JNum 3]), (''name'', JNull)]
              [''\"id\" IN (1, 2, 3)'', ''\"name\" IS NULL'']"
    by code_simp
  have t2: "[''\"id\" IN (1, 2, 3)'', ''\"name\" IS NULL''] \<noteq> [] \<and>
            ends_outside '' AND '' (last [''\"id\" IN (1, 2, 3)'', ''\"name\" IS NULL''])"
    by (simp add: ends_outside_def)
  from T [where L = spec_driver and c = "''user''" and key = JUndefined
      and kvs = "[(''id'', JArr [JNum 1, JNum 2, JNum 3]), (''name'', JNull)]",
      THEN conjunct1, rule_format, OF k2, THEN conjunct2, rule_format, OF f2, THEN conjunct2, rule_format, OF t2]
  have r2: "sql_where spec_driver ''user'' (JObj [(''id'', JArr [JNum 1, JNum 2, JNum 3]), (''name'', JNull)])
       JUndefined JUndefined =
     Inr ''\"id\" IN (1, 2, 3) AND \"name\" IS NULL''"
    by simp
  have l3: "map_of [(''length'', JNum 5), (''a'', JNum 1)] ''length'' = Some (JNum 5) \<and> (0::int) < 5"
    by simp
  from T [where L = spec_driver and c = "''user''" and key = JUndefined
      and kvs = "[(''length'', JNum 5), (''a'', JNum 1)]" and n = 5,
      THEN conjunct2, THEN conjunct1, rule_format, OF l3]
  have r3: "sql_where spec_driver ''user'' (JObj [(''length'', JNum 5), (''a'', JNum 1)]) JUndefined JUndefined =
     Inl TypeError" .
  have l4: "map_of [(''length'', JNum 0), (''a'', JNum 1)] ''length'' = Some (JNum 0) \<and> (0::int) \<le> 0"
    by simp
  from T [where L = spec_driver and c = "''user''" and key = JUndefined
      and kvs = "[(''length'', JNum 0), (''a'', JNum 1)]" and n = 0,
      THEN conjunct2, THEN conjunct2, rule_format, OF l4]
  have r4: "sql_where spec_driver ''user'' (JObj [(''length'', JNum 0), (''a'', JNum 1)]) JUndefined JUndefined =
     Inr []" .
  from r1 r2 r3 r4 show ?thesis by blast
qed

subsection \<open>C7: the clauses of the options serializer\<close>

text \<open>
  Claim C7.  For every criteria object, \<^verbatim>\<open>sql.serializeOptions\<close> is to return the WHERE
  clause, the ORDER BY clause, the LIMIT clause and the OFFSET clause in this order, with
  every sort attribute followed by \<^verbatim>\<open>ASC\<close> when its direction is the number 1 and by
  \<^verbatim>\<open>DESC\<close> for any other direction, and with the limit in the LIMIT clause when it is
  present and positive and the number 18446744073709551610 otherwise.  The code does so
  for every criteria object whose sort mapping \<^verbatim>\<open>_.each\<close> enumerates by its properties
  (limit and skip being safe integers, which are printed in plain decimal): without
  \<^verbatim>\<open>where\<close> the result is the three other clauses, with a \<^verbatim>\<open>where\<close> that \<^verbatim>\<open>sql.where\<close>
  translates to a predicate it is \<^verbatim>\<open>WHERE\<close>, the predicate and a space in front of them,
  and an error of \<^verbatim>\<open>sql.where\<close> is passed on.  The code fails for a sort mapping with an
  attribute named \<^verbatim>\<open>length\<close> whose direction is a number: the mapping is walked by index,
  and for a direction of zero or below (as \<open>-1\<close> for descending) no attribute is visited
  and the ORDER BY clause is the bare keyword.
\<close>

theorem serializeOptions_clauses:
  "(sort_enumerated cr \<and> safe_numbers cr \<longrightarrow>
      (c_where cr = None \<longrightarrow>
         sql_serializeOptions L c (to_options cr) =
           Inr (order_by_clause L (c_sort cr) @ limit_clause (c_limit cr) @ offset_clause (c_skip cr))) \<and>
      (c_where cr = Some w \<and> sql_where L c (JObj w) JUndefined JUndefined = Inr p \<longrightarrow>
         sql_serializeOptions L c (to_options cr) =
           Inr (''WHERE '' @ p @ '' '' @
                order_by_clause L (c_sort cr) @ limit_clause (c_limit cr) @ offset_clause (c_skip cr))) \<and>
      (c_where cr = Some w \<and> sql_where L c (JObj w) JUndefined JUndefined = Inl e \<longrightarrow>
         sql_serializeOptions L c (to_options cr) = Inl e)) \<and>
   (c_where cr = None \<and> c_sort cr = Some kvs \<and> map_of kvs ''length'' = Some (JNum n) \<and> n \<le> 0 \<and>
    safe_numbers cr \<longrightarrow>
      sql_serializeOptions L c (to_options cr) =
        Inr (''ORDER BY '' @ limit_clause (c_limit cr) @ offset_clause (c_skip cr)))"
proof -
  have absent: "sql_serializeOptions L c (to_options cr) =
           Inr (order_by_clause L (c_sort cr) @ limit_clause (c_limit cr) @ offset_clause (c_skip cr))"
    if "sort_enumerated cr" "c_where cr = None"
    using that
    by (simp add: sql_serializeOptions_def to_options_def order_by_clause_def
          limit_clause_def offset_clause_def sort_enumerated_def sort_loop_enumerated show_int_nat Let_def
        del: each.simps split: option.splits)
  have present: "sql_serializeOptions L c (to_options cr) =
           Inr (''WHERE '' @ p @ '' '' @
                order_by_clause L (c_sort cr) @ limit_clause (c_limit cr) @ offset_clause (c_skip cr))"
    if "sort_enumerated cr" "c_where cr = Some w" "sql_where L c (JObj w) JUndefined JUndefined = Inr p"
    using that
    by (simp add: sql_serializeOptions_def to_options_def order_by_clause_def
          limit_clause_def offset_clause_def sort_enumerated_def sort_loop_enumerated show_int_nat Let_def
        del: each.simps split: option.splits)
  have failing: "sql_serializeOptions L c (to_options cr) = Inl e"
    if "c_where cr = Some w" "sql_where L c (JObj w) JUndefined JUndefined = Inl e"
    using that by (simp add: sql_serializeOptions_def to_options_def)
  have indexed_sort: "sql_serializeOptions L c (to_options cr) =
        Inr (''ORDER BY '' @ limit_clause (c_limit cr) @ offset_clause (c_skip cr))"
    if "c_where cr = None" "c_sort cr = Some kvs" "map_of kvs ''length'' = Some (JNum n)" "n \<le> 0"
    using that
    by (simp add: sql_serializeOptions_def to_options_def
          limit_clause_def offset_clause_def sort_loop_indexed_empty show_int_nat Let_def
        del: each.simps split: option.splits)
  from absent present failing indexed_sort show ?thesis by blast
qed

theorem serializeOptions_clauses_example:
  "sql_serializeOptions spec_driver ''user''
     (to_options \<lparr>c_where = None, c_sort = Some [(''name'', JNum 1)], c_limit = Some 10, c_skip = Some 5\<rparr>) =
     Inr ''ORDER BY \"name\" ASC LIMIT 10 OFFSET 5 '' \<and>
   sql_serializeOptions spec_driver ''user''
     (to_options \<lparr>c_where = Some [(''a'', JNum 1)], c_sort = Some [(''name'', JNum 2), (''age'', JStr ''1'')],
                  c_limit = None, c_skip = None\<rparr>) =
     Inr ''WHERE \"a\"=1 ORDER BY \"name\" DESC \"age\" DESC LIMIT 18446744073709551610 '' \<and>
   sql_serializeOptions spec_driver ''user''
     (to_options \<lparr>c_where = None, c_sort = Some [(''length'', JNum (- 1))], c_limit = Some 10, c_skip = None\<rparr>) =
     Inr ''ORDER BY LIMIT 10 ''"
proof -
  note T = serializeOptions_clauses
  let ?c1 = "\<lparr>c_where = None, c_sort = Some [(''name'', JNum 1)], c_limit = Some 10, c_skip = Some 5\<rparr>"
  let ?c2 = "\<lparr>c_where = Some [(''a'', JNum 1)], c_sort = Some [(''name'', JNum 2), (''age'', JStr ''1'')],
                  c_limit = None, c_skip = None\<rparr>"
  let ?c3 = "\<lparr>c_where = None, c_sort = Some [(''length'', JNum (- 1))], c_limit = Some 10, c_skip = None\<rparr>"
  have h1: "sort_enumerated ?c1 \<and> safe_numbers ?c1"
    by (simp add: sort_enumerated_def safe_numbers_def enumerated_def max_safe_integer_def)
  have w1: "c_where ?c1 = None" by simp
  have e1: "order_by_clause spec_driver (c_sort ?c1) @ limit_clause (c_limit ?c1) @ offset_clause (c_skip ?c1) =
     ''ORDER BY \"name\" ASC LIMIT 10 OFFSET 5 ''"
    by code_simp
  from T [where cr = ?c1 and L = spec_driver and c = "''user''", THEN conjunct1, rule_format, OF h1,
      THEN conjunct1, rule_format, OF w1]
  have r1: "sql_serializeOptions spec_driver ''user'' (to_options ?c1) =
     Inr ''ORDER BY \"name\" ASC LIMIT 10 OFFSET 5 ''"
    by (simp only: e1)
  have h2: "sort_enumerated ?c2 \<and> safe_numbers ?c2"
    by (simp add: sort_enumerated_def safe_numbers_def enumerated_def max_safe_integer_def)
  have w2: "c_where ?c2 = Some [(''a'', JNum 1)] \<and>
            sql_where spec_driver ''user'' (JObj [(''a'', JNum 1)]) JUndefined JUndefined = Inr ''\"a\"=1''"
    by code_simp
  have e2: "''WHERE '' @ ''\"a\"=1'' @ '' '' @
            order_by_clause spec_driver (c_sort ?c2) @ limit_clause (c_limit ?c2) @ offset_clause (c_skip ?c2) =
     ''WHERE \"a\"=1 ORDER BY \"name\" DESC \"age\" DESC LIMIT 18446744073709551610 ''"
    by code_simp
  from T [where cr = ?c2 and L = spec_driver and c = "''user''" and w = "[(''a'', JNum 1)]"
      and p = "''\"a\"=1''", THEN conjunct1, rule_format, OF h2,
      THEN conjunct2, THEN conjunct1, rule_format, OF w2]
  have r2: "sql_serializeOptions spec_driver ''user'' (to_options ?c2) =
     Inr ''WHERE \"a\"=1 ORDER BY \"name\" DESC \"age\" DESC LIMIT 18446744073709551610 ''"
    by (simp only: e2)
  have h3: "c_where ?c3 = None \<and> c_sort ?c3 = Some [(''length'', JNum (- 1))] \<and>
            map_of [(''length'', JNum (- 1))] ''length'' = Some (JNum (- 1)) \<and> (- 1 :: int) \<le> 0 \<and>
            safe_numbers ?c3"
    by (simp add: safe_numbers_def max_safe_integer_def)
  have e3: "''ORDER BY '' @ limit_clause (c_limit ?c3) @ offset_clause (c_skip ?c3) = ''ORDER BY LIMIT 10 ''"
    by code_simp
  from T [where cr = ?c3 and L = spec_driver and c = "''user''" and kvs = "[(''length'', JNum (- 1))]"
      and n = "- 1", THEN conjunct2, rule_format, OF h3]
  have r3: "sql_serializeOptions spec_driver ''user'' (to_options ?c3) = Inr ''ORDER BY LIMIT 10 ''"
    by (simp only: e3)
  from r1 r2 r3 show ?thesis by blast
qed

subsection \<open>C8: when WHERE and OFFSET are emitted\<close>




subsection \<open>C9: several comparators on one attribute\<close>

text \<open>
  Claim C9.  For an attribute with a non-empty name whose value is an object of two or
  more entries, each a recognized comparator key with a truthy operand that is not itself
  a comparator object, \<^verbatim>\<open>sql.prepareCriterion\<close> raises no error and renders every
  comparator against the attribute: the fragments, each followed by \<^verbatim>\<open>' AND '\<close>, in the
  order of the object, trimmed at the right end, which is the fragments joined by
  \<^verbatim>\<open>' AND '\<close> when the last one does not end in a space, A, N or D.
\<close>

theorem comparators_conjunctive:
  assumes attr: "attr \<noteq> []"
    and many: "2 \<le> length ops"
    and ops: "list_all (\<lambda>(k, v). k \<in> set comparator_keys \<and> truthy v \<and> \<not> validSubAttrCriteria v) ops"
  shows "sql_prepareCriterion L c (JObj ops) (JStr attr) pk =
           Inr (rtrim (concat (map (\<lambda>f. f @ '' AND '') (map (comparator_fragment L c attr) ops))) '' AND '') \<and>
         (ends_outside '' AND '' (comparator_fragment L c attr (last ops)) \<longrightarrow>
            sql_prepareCriterion L c (JObj ops) (JStr attr) pk =
              Inr (join '' AND '' (map (comparator_fragment L c attr) ops)))"
proof -
  have ne: "ops \<noteq> []" using many by auto
  have sub: "validSubAttrCriteria (JObj ops)" using ne ops by (rule comparators_sub)
  have "list_all2 (\<lambda>(k, v) f. sql_predicate L c v (JStr k) (JStr attr) = Inr f) ops
          (map (comparator_fragment L c attr) ops)"
    using ops attr by (intro list_all2_map_self) (auto simp: list_all_iff comparator_entry)
  note J = where_object_join [OF comparators_enumerated [OF ops] this, of JNull]
  have joined: "sql_where L c (JObj ops) JNull (JStr attr) =
              Inr (join '' AND '' (map (comparator_fragment L c attr) ops))"
    if "ends_outside '' AND '' (comparator_fragment L c attr (last ops))"
    by (rule J [THEN conjunct2, rule_format]) (simp add: that ne last_map)
  have "sql_prepareCriterion L c (JObj ops) (JStr attr) pk = sql_where L c (JObj ops) JNull (JStr attr)"
    using sub by (simp add: sql_prepareCriterion.simps)
  with J [THEN conjunct1] joined show ?thesis by simp
qed

theorem comparators_conjunctive_example:
  "sql_prepareCriterion spec_driver ''user'' (JObj [(''>'', JNum 18), (''<'', JNum 65)]) (JStr ''age'') JUndefined =
     Inr ''\"age\">18 AND \"age\"<65''"
proof -
  have a: "''age'' \<noteq> []" by simp
  have m: "2 \<le> length [(''>'', JNum 18), (''<'', JNum (65::int))]" by simp
  have h: "list_all (\<lambda>(k, v). k \<in> set comparator_keys \<and> truthy v \<and> \<not> validSubAttrCriteria v)
             [(''>'', JNum 18), (''<'', JNum 65)]"
    by (simp add: comparator_keys_def validSubAttrCriteria_def)
  have e: "join '' AND '' (map (comparator_fragment spec_driver ''user'' ''age'') [(''>'', JNum 18), (''<'', JNum 65)]) =
             ''\"age\">18 AND \"age\"<65''"
    by code_simp
  have t: "ends_outside '' AND '' (comparator_fragment spec_driver ''user'' ''age'' (last [(''>'', JNum 18), (''<'', JNum 65)]))"
    by code_simp
  from comparators_conjunctive [OF a m h, of spec_driver "''user''" JUndefined, THEN conjunct2, rule_format, OF t]
  show ?thesis by (simp only: e)
qed

subsection \<open>C10: the assignments of UPDATE\<close>

text \<open>
  Claim C10.  \<^verbatim>\<open>sql.criteria\<close>, which builds the SET clause of \<^verbatim>\<open>adapter.update\<close>, is to
  render every pair of the values mapping with the criterion translator: the escaped
  attribute, an equals sign and the escaped value for a value that is not null, and the
  escaped attribute followed by \<^verbatim>\<open>IS NULL\<close> for null, joined by \<^verbatim>\<open>', '\<close>.  The code does
  so for every values mapping that \<^verbatim>\<open>_.each\<close> enumerates by its properties and none of
  whose values is a comparator object (scalars never are): the fragments are each
  followed by \<^verbatim>\<open>', '\<close> and the result is trimmed at the right end, which is the fragments
  joined by \<^verbatim>\<open>', '\<close> when the last one does not end in a comma or a space; the update
  query carries this text after \<^verbatim>\<open>SET\<close>.  The code fails for a values mapping with an
  attribute named \<^verbatim>\<open>length\<close> whose value is a number: the mapping is walked by index
  instead of by its properties, so for zero or a negative number no pair is visited and
  the assignments are the empty string.
\<close>

theorem criteria_assignments:
  "(list_all (\<lambda>(k, v). \<not> validSubAttrCriteria v) kvs \<and> enumerated kvs \<longrightarrow>
      sql_criteria L c (JObj kvs) =
        Inr (rtrim (concat (map (\<lambda>f. f @ '', '') (map (plain_criterion L c) kvs))) '', '') \<and>
      (kvs \<noteq> [] \<and> ends_outside '', '' (plain_criterion L c (last kvs)) \<longrightarrow>
         sql_criteria L c (JObj kvs) = Inr (join '', '' (map (plain_criterion L c) kvs))) \<and>
      (sql_serializeOptions L c opts = Inr suffix \<longrightarrow>
         update_query L c opts (JObj kvs) =
           Inr (''UPDATE '' @ escapeId L (JStr c) @ '' SET '' @
                rtrim (concat (map (\<lambda>f. f @ '', '') (map (plain_criterion L c) kvs))) '', '' @
                '' '' @ suffix))) \<and>
   plain_criterion L c (k, JNull) = escapeId L (JStr k) @ '' IS NULL'' \<and>
   (v \<noteq> JNull \<longrightarrow>
      plain_criterion L c (k, v) = escapeId L (JStr k) @ ''='' @ sql_prepareValue L c v (JStr k)) \<and>
   (map_of kvs ''length'' = Some (JNum n) \<and> n \<le> 0 \<longrightarrow> sql_criteria L c (JObj kvs) = Inr [])"
proof -
  have enumerated_values: "sql_criteria L c (JObj kvs) =
        Inr (rtrim (concat (map (\<lambda>f. f @ '', '') (map (plain_criterion L c) kvs))) '', '') \<and>
      (kvs \<noteq> [] \<and> ends_outside '', '' (plain_criterion L c (last kvs)) \<longrightarrow>
         sql_criteria L c (JObj kvs) = Inr (join '', '' (map (plain_criterion L c) kvs))) \<and>
      (sql_serializeOptions L c opts = Inr suffix \<longrightarrow>
         update_query L c opts (JObj kvs) =
           Inr (''UPDATE '' @ escapeId L (JStr c) @ '' SET '' @
                rtrim (concat (map (\<lambda>f. f @ '', '') (map (plain_criterion L c) kvs))) '', '' @
                '' '' @ suffix))"
    if vals: "list_all (\<lambda>(k, v). \<not> validSubAttrCriteria v) kvs" and enum: "enumerated kvs"
  proof -
    have "list_all2 (\<lambda>(k, v) f. sql_prepareCriterion L c v (JStr k) JUndefined = Inr f) kvs
            (map (plain_criterion L c) kvs)"
      using vals by (intro list_all2_map_self) (auto simp: list_all_iff criteria_entry)
    with enum have first: "sql_criteria L c (JObj kvs) =
             Inr (rtrim (concat (map (\<lambda>f. f @ '', '') (map (plain_criterion L c) kvs))) '', '')"
      by (rule criteria_object)
    have second: "rtrim (concat (map (\<lambda>f. f @ '', '') (map (plain_criterion L c) kvs))) '', '' =
            join '', '' (map (plain_criterion L c) kvs)"
      if "kvs \<noteq> []" "ends_outside '', '' (plain_criterion L c (last kvs))"
      using that by (intro rtrim_join) (simp_all add: last_map)
    have third: "update_query L c opts (JObj kvs) =
                Inr (''UPDATE '' @ escapeId L (JStr c) @ '' SET '' @
                     rtrim (concat (map (\<lambda>f. f @ '', '') (map (plain_criterion L c) kvs))) '', '' @
                     '' '' @ suffix)"
      if "sql_serializeOptions L c opts = Inr suffix"
      using that first by (simp add: update_query_def)
    from first second third show ?thesis by simp
  qed
  have null_test: "plain_criterion L c (k, JNull) = escapeId L (JStr k) @ '' IS NULL''"
    by (simp add: plain_criterion_def)
  have equality: "plain_criterion L c (k, v) = escapeId L (JStr k) @ ''='' @ sql_prepareValue L c v (JStr k)"
    if "v \<noteq> JNull"
    using that by (simp add: plain_criterion_def)
  have dropped: "sql_criteria L c (JObj kvs) = Inr []"
    if "map_of kvs ''length'' = Some (JNum n)" "n \<le> 0"
    using that by (rule criteria_indexed_empty)
  from enumerated_values null_test equality dropped show ?thesis by blast
qed

theorem criteria_assignments_example:
  "sql_criteria spec_driver ''user'' (JObj [(''name'', JStr ''Ann''), (''age'', JNull), (''rank'', JNum 3)]) =
     Inr ''\"name\"='Ann', \"age\" IS NULL, \"rank\"=3'' \<and>
   update_query spec_driver ''user''
       \<lparr>opt_where = JObj [(''id'', JNum 7)], opt_sort = JUndefined, opt_limit = JUndefined, opt_skip = JUndefined\<rparr>
       (JObj [(''name'', JStr ''Ann''), (''age'', JNull), (''rank'', JNum 3)]) =
     Inr ''UPDATE \"user\" SET \"name\"='Ann', \"age\" IS NULL, \"rank\"=3 WHERE \"id\"=7 LIMIT 18446744073709551610 '' \<and>
   sql_criteria spec_driver ''user'' (JObj [(''name'', JStr ''Ann''), (''length'', JNum 0)]) = Inr []"
proof -
  let ?kvs = "[(''name'', JStr ''Ann''), (''age'', JNull), (''rank'', JNum 3)]"
  let ?opts = "\<lparr>opt_where = JObj [(''id'', JNum 7)], opt_sort = JUndefined, opt_limit = JUndefined,
                 opt_skip = JUndefined\<rparr>"
  note T = criteria_assignments
  have h: "list_all (\<lambda>(k, v). \<not> validSubAttrCriteria v) ?kvs \<and> enumerated ?kvs"
    by (simp add: validSubAttrCriteria_def enumerated_def)
  have e: "join '', '' (map (plain_criterion spec_driver ''user'') ?kvs) =
             ''\"name\"='Ann', \"age\" IS NULL, \"rank\"=3''"
    by code_simp
  have t: "?kvs \<noteq> [] \<and> ends_outside '', '' (plain_criterion spec_driver ''user'' (last ?kvs))"
    by code_simp
  have s: "sql_serializeOptions spec_driver ''user'' ?opts = Inr ''WHERE \"id\"=7 LIMIT 18446744073709551610 ''"
    by code_simp
  have u: "''UPDATE '' @ escapeId spec_driver (JStr ''user'') @ '' SET '' @
           rtrim (concat (map (\<lambda>f. f @ '', '') (map (plain_criterion spec_driver ''user'') ?kvs))) '', '' @
           '' '' @ ''WHERE \"id\"=7 LIMIT 18446744073709551610 '' =
           ''UPDATE \"user\" SET \"name\"='Ann', \"age\" IS NULL, \"rank\"=3 WHERE \"id\"=7 LIMIT 18446744073709551610 ''"
    by code_simp
  note P = T [where L = spec_driver and c = "''user''" and kvs = ?kvs and opts = ?opts
      and suffix = "''WHERE \"id\"=7 LIMIT 18446744073709551610 ''", THEN conjunct1, rule_format, OF h]
  from P [THEN conjunct2, THEN conjunct1, rule_format, OF t]
  have r1: "sql_criteria spec_driver ''user'' (JObj ?kvs) = Inr ''\"name\"='Ann', \"age\" IS NULL, \"rank\"=3''"
    by (simp only: e)
  from P [THEN conjunct2, THEN conjunct2, rule_format, OF s]
  have r2: "update_query spec_driver ''user'' ?opts (JObj ?kvs) =
     Inr ''UPDATE \"user\" SET \"name\"='Ann', \"age\" IS NULL, \"rank\"=3 WHERE \"id\"=7 LIMIT 18446744073709551610 ''"
    by (simp only: u)
  have l3: "map_of [(''name'', JStr ''Ann''), (''length'', JNum 0)] ''length'' = Some (JNum 0) \<and> (0::int) \<le> 0"
    by simp
  from T [where L = spec_driver and c = "''user''" and kvs = "[(''name'', JStr ''Ann''), (''length'', JNum 0)]"
      and n = 0, THEN conjunct2, THEN conjunct2, THEN conjunct2, rule_format, OF l3]
  have r3: "sql_criteria spec_driver ''user'' (JObj [(''name'', JStr ''Ann''), (''length'', JNum 0)]) = Inr []" .
  from r1 r2 r3 show ?thesis by blast
qed

end
